theory Spec2Isabelle
  imports Main "HOL-Library.Word" "HOL-Library.Sublist"
begin

section \<open>JavaScript values as the parser sees them\<close>

text \<open>
  A JavaScript string is a sequence of UTF-16 code units; \<open>length\<close>, \<open>substring\<close>,
  \<open>trim\<close>, \<open>includes\<close> and \<open>endsWith\<close> all count code units.
\<close>

type_synonym jstring = "16 word list"

type_synonym buffer = "8 word list"

definition ascii :: "string \<Rightarrow> jstring" where
  "ascii s = map of_char s"

text \<open>
  The values \<open>JSON.parse\<close> can produce, with \<open>undefined\<close> added for a missing property
  or array element. The number type is a parameter: the parser only asks a number whether
  it is truthy and what it prints as. An object is its list of own properties; a lookup
  takes the first binding of a key.
\<close>

datatype 'n jsval =
    JUndefined
  | JNull
  | JBool bool
  | JNum 'n
  | JStr jstring
  | JArr "'n jsval list"
  | JObj "(jstring \<times> 'n jsval) list"

datatype error = SyntaxError | TypeError | LibraryError

text \<open>\<open>ParsedNote\<close>: \<open>createdAt\<close> is the time value of a valid \<open>Date\<close>, or unset.\<close>

record ParsedNote =
  title :: jstring
  content :: jstring
  createdAt :: "int option"

text \<open>One entry of the archive: its name and what \<open>getData()\<close> gives (or throws).\<close>

record zip_entry =
  entryName :: jstring
  getData :: "error + buffer"

text \<open>
  What the parser reads off a loaded document: the results of the six queries it makes.
  \<open>script_html\<close> is \<open>$('script[type="application/ld+json"]').html()\<close>, which is
  \<open>null\<close> when no element matches.
\<close>

record cheerio_doc =
  script_html :: "jstring option"
  title_tag_text :: jstring
  title_class_text :: jstring
  content_class_length :: nat
  content_class_text :: jstring
  body_text :: jstring

text \<open>
  The library and built-in functions the module calls, taken as parameters:
  \<open>new AdmZip(buf).getEntries()\<close>, \<open>Buffer.toString('utf-8')\<close>, \<open>cheerio.load\<close>,
  \<open>JSON.parse\<close>, \<open>new Date(v).getTime()\<close> (\<open>None\<close> for \<open>NaN\<close>),
  \<open>String.prototype.toLowerCase\<close>, and truthiness and printing of numbers.
  A result \<open>Inl e\<close> is a thrown exception.
\<close>

record 'n runtime =
  AdmZip_getEntries :: "buffer \<Rightarrow> error + zip_entry list"
  utf8_toString :: "buffer \<Rightarrow> jstring"
  cheerio_load :: "jstring \<Rightarrow> error + cheerio_doc"
  JSON_parse :: "jstring \<Rightarrow> error + 'n jsval"
  Date_getTime :: "'n jsval \<Rightarrow> error + int option"
  toLowerCase :: "jstring \<Rightarrow> jstring"
  number_truthy :: "'n \<Rightarrow> bool"
  number_toString :: "'n \<Rightarrow> jstring"

definition bindE :: "error + 'a \<Rightarrow> ('a \<Rightarrow> error + 'b) \<Rightarrow> error + 'b" where
  "bindE m f = (case m of Inl e \<Rightarrow> Inl e | Inr x \<Rightarrow> f x)"

subsection \<open>Strings\<close>

text \<open>
  The code units \<open>trim\<close> strips and \<open>\s\<close> matches: WhiteSpace and LineTerminator of
  the language specification.
\<close>

definition isWhiteSpace :: "16 word \<Rightarrow> bool" where
  "isWhiteSpace c \<longleftrightarrow>
     c = 0x09 \<or> c = 0x0A \<or> c = 0x0B \<or> c = 0x0C \<or> c = 0x0D \<or> c = 0x20 \<or> c = 0xA0
     \<or> c = 0x1680 \<or> (0x2000 \<le> c \<and> c \<le> 0x200A) \<or> c = 0x2028 \<or> c = 0x2029
     \<or> c = 0x202F \<or> c = 0x205F \<or> c = 0x3000 \<or> c = 0xFEFF"

definition trim :: "jstring \<Rightarrow> jstring" where
  "trim s = rev (dropWhile isWhiteSpace (rev (dropWhile isWhiteSpace s)))"

definition startsWith :: "jstring \<Rightarrow> jstring \<Rightarrow> bool" where
  "startsWith s p \<longleftrightarrow> take (length p) s = p"

text \<open>\<open>s.includes(p)\<close>: some position of \<open>s\<close> starts an occurrence of \<open>p\<close>.\<close>

fun includes_str :: "jstring \<Rightarrow> jstring \<Rightarrow> bool" where
  "includes_str [] p = (p = [])"
| "includes_str (c # cs) p = (startsWith (c # cs) p \<or> includes_str cs p)"

definition endsWith :: "jstring \<Rightarrow> jstring \<Rightarrow> bool" where
  "endsWith s p \<longleftrightarrow> length p \<le> length s \<and> drop (length s - length p) s = p"

text \<open>\<open>lines.join('\n')\<close>.\<close>

fun join_nl :: "jstring list \<Rightarrow> jstring" where
  "join_nl [] = []"
| "join_nl [l] = l"
| "join_nl (l # m # ls) = l @ 0x0A # join_nl (m # ls)"

text \<open>\<open>s.replace(/\s+/g, ' ')\<close>: every maximal run of whitespace becomes one space.\<close>

function replace_ws_runs :: "jstring \<Rightarrow> jstring" where
  "replace_ws_runs [] = []"
| "replace_ws_runs (c # cs) =
     (if isWhiteSpace c then 0x20 # replace_ws_runs (dropWhile isWhiteSpace cs)
      else c # replace_ws_runs cs)"
  by pat_completeness auto
termination
  by (relation "measure length") (auto simp: length_dropWhile_le less_Suc_eq_le)

text \<open>\<open>s.replace(/\r\n/g, '\n')\<close>.\<close>

fun replace_crlf :: "jstring \<Rightarrow> jstring" where
  "replace_crlf (c # d # cs) =
     (if c = 0x0D \<and> d = 0x0A then 0x0A # replace_crlf cs else c # replace_crlf (d # cs))"
| "replace_crlf cs = cs"

text \<open>\<open>s.replace(/\r/g, '\n')\<close>.\<close>

definition replace_cr :: "jstring \<Rightarrow> jstring" where
  "replace_cr s = map (\<lambda>c. if c = 0x0D then 0x0A else c) s"

text \<open>
  \<open>s.replace(/\n{3,}/g, '\n\n')\<close>: the match is greedy, so a run of three or more
  newlines is replaced whole by two; a shorter run is left alone.
\<close>

function replace_nl_runs :: "jstring \<Rightarrow> jstring" where
  "replace_nl_runs [] = []"
| "replace_nl_runs (c # cs) =
     (if c = 0x0A \<and> 2 \<le> length (takeWhile (\<lambda>d. d = 0x0A) cs)
      then 0x0A # 0x0A # replace_nl_runs (dropWhile (\<lambda>d. d = 0x0A) cs)
      else c # replace_nl_runs cs)"
  by pat_completeness auto
termination
  by (relation "measure length") (auto simp: length_dropWhile_le less_Suc_eq_le)

subsection \<open>Values: truthiness, property access, conversion to string\<close>

fun truthy :: "'n runtime \<Rightarrow> 'n jsval \<Rightarrow> bool" where
  "truthy rt JUndefined = False"
| "truthy rt JNull = False"
| "truthy rt (JBool b) = b"
| "truthy rt (JNum n) = number_truthy rt n"
| "truthy rt (JStr s) = (s \<noteq> [])"
| "truthy rt (JArr xs) = True"
| "truthy rt (JObj kvs) = True"

text \<open>
  \<open>v.k\<close> for the property names the parser reads (\<open>name\<close>, \<open>headline\<close>, \<open>text\<close>,
  \<open>description\<close>, \<open>itemListElement\<close>, \<open>checked\<close>, \<open>dateCreated\<close>, \<open>dateModified\<close>):
  none of them is inherited from a prototype, so only an object's own property gives a
  value; reading a property of \<open>null\<close> or \<open>undefined\<close> throws.
\<close>

definition own_prop :: "(jstring \<times> 'n jsval) list \<Rightarrow> jstring \<Rightarrow> 'n jsval" where
  "own_prop kvs k = (case map_of kvs k of Some v \<Rightarrow> v | None \<Rightarrow> JUndefined)"

fun get_prop :: "'n jsval \<Rightarrow> jstring \<Rightarrow> error + 'n jsval" where
  "get_prop JUndefined k = Inl TypeError"
| "get_prop JNull k = Inl TypeError"
| "get_prop (JObj kvs) k = Inr (own_prop kvs k)"
| "get_prop v k = Inr JUndefined"

text \<open>\<open>a.k1 || a.k2 || ''\<close>.\<close>

definition prop_or_prop_or_empty :: "'n runtime \<Rightarrow> 'n jsval \<Rightarrow> jstring \<Rightarrow> jstring \<Rightarrow> error + 'n jsval" where
  "prop_or_prop_or_empty rt a k1 k2 =
     bindE (get_prop a k1) (\<lambda>v1.
       if truthy rt v1 then Inr v1
       else bindE (get_prop a k2) (\<lambda>v2.
         if truthy rt v2 then Inr v2 else Inr (JStr [])))"

text \<open>
  Conversion to string inside a template literal. An array prints its elements joined by
  commas, \<open>null\<close> and \<open>undefined\<close> elements as nothing. A parsed object prints as
  \<open>[object Object]\<close> unless it has an own property \<open>toString\<close>, which is then not a
  function, and the conversion throws.
\<close>

fun ToString :: "'n runtime \<Rightarrow> 'n jsval \<Rightarrow> error + jstring"
  and join_comma :: "'n runtime \<Rightarrow> 'n jsval list \<Rightarrow> error + jstring" where
  "ToString rt JUndefined = Inr (ascii ''undefined'')"
| "ToString rt JNull = Inr (ascii ''null'')"
| "ToString rt (JBool b) = Inr (ascii (if b then ''true'' else ''false''))"
| "ToString rt (JNum n) = Inr (number_toString rt n)"
| "ToString rt (JStr s) = Inr s"
| "ToString rt (JArr xs) = join_comma rt xs"
| "ToString rt (JObj kvs) =
     (if map_of kvs (ascii ''toString'') = None then Inr (ascii ''[object Object]'')
      else Inl TypeError)"
| "join_comma rt [] = Inr []"
| "join_comma rt (x # xs) =
     bindE (if x = JNull \<or> x = JUndefined then Inr [] else ToString rt x) (\<lambda>s.
       if xs = [] then Inr s
       else bindE (join_comma rt xs) (\<lambda>t. Inr (s @ 0x2C # t)))"

text \<open>\<open>v.trim()\<close>: a method of strings only; on any other truthy value it is not a function.\<close>

fun call_trim :: "'n jsval \<Rightarrow> error + jstring" where
  "call_trim (JStr s) = Inr (trim s)"
| "call_trim v = Inl TypeError"

fun isArray :: "'n jsval \<Rightarrow> bool" where
  "isArray (JArr xs) = True"
| "isArray v = False"

text \<open>\<open>a[0]\<close> of an array.\<close>

fun first_element :: "'n jsval \<Rightarrow> 'n jsval" where
  "first_element (JArr (x # xs)) = x"
| "first_element v = JUndefined"

fun array_elements :: "'n jsval \<Rightarrow> 'n jsval list" where
  "array_elements (JArr xs) = xs"
| "array_elements v = []"

section \<open>The parsing module\<close>

subsection \<open>\<open>isKeepHtmlFile\<close>\<close>

definition isKeepHtmlFile :: "'n runtime \<Rightarrow> jstring \<Rightarrow> bool" where
  "isKeepHtmlFile rt entryName' =
     (let lowerName = toLowerCase rt entryName'
      in includes_str lowerName (ascii ''keep'')
         \<and> endsWith lowerName (ascii ''.html'')
         \<and> \<not> includes_str lowerName (ascii ''label''))"

subsection \<open>\<open>extractNoteFromJsonLd\<close>\<close>

definition ballot_box_checked :: "16 word" where
  "ballot_box_checked = 0x2611"

definition ballot_box :: "16 word" where
  "ballot_box = 0x2610"

text \<open>The body of the loop over \<open>data.itemListElement\<close>: one rendered line, or a throw.\<close>

definition checklistLine :: "'n runtime \<Rightarrow> 'n jsval \<Rightarrow> error + jstring" where
  "checklistLine rt item =
     bindE (prop_or_prop_or_empty rt item (ascii ''text'') (ascii ''name'')) (\<lambda>itemText.
     bindE (get_prop item (ascii ''checked'')) (\<lambda>checked.
       let isChecked = (checked = JBool True);
           checkbox = (if isChecked then ballot_box_checked else ballot_box)
       in bindE (ToString rt itemText) (\<lambda>t. Inr (checkbox # 0x20 # t))))"

text \<open>The loop: \<open>checklistItems.push(...)\<close> for each item in turn; a throw leaves the loop.\<close>

fun checklistItems :: "'n runtime \<Rightarrow> 'n jsval list \<Rightarrow> jstring list \<Rightarrow> error + jstring list" where
  "checklistItems rt [] acc = Inr acc"
| "checklistItems rt (item # items) acc =
     bindE (checklistLine rt item) (\<lambda>l. checklistItems rt items (acc @ [l]))"

text \<open>
  The timestamp, as the \<open>if\<close>/\<open>else if\<close> of the source has it: \<open>dateModified\<close> is
  read in the \<open>else\<close> branch of the test of \<open>data.dateCreated\<close>.
\<close>

definition recoverCreatedAt :: "'n runtime \<Rightarrow> 'n jsval \<Rightarrow> error + int option" where
  "recoverCreatedAt rt data =
     bindE (get_prop data (ascii ''dateCreated'')) (\<lambda>dc.
       if truthy rt dc then Date_getTime rt dc
       else bindE (get_prop data (ascii ''dateModified'')) (\<lambda>dm.
         if truthy rt dm then Date_getTime rt dm else Inr None))"

text \<open>The content before the emptiness test: the joined checklist, or the text.\<close>

definition rawContent :: "'n runtime \<Rightarrow> 'n jsval \<Rightarrow> error + 'n jsval" where
  "rawContent rt data =
     bindE (get_prop data (ascii ''itemListElement'')) (\<lambda>ile.
       if truthy rt ile \<and> isArray ile
       then bindE (checklistItems rt (array_elements ile) []) (\<lambda>ls. Inr (JStr (join_nl ls)))
       else prop_or_prop_or_empty rt data (ascii ''text'') (ascii ''description''))"

definition extractNoteFromJsonLd :: "'n runtime \<Rightarrow> 'n jsval \<Rightarrow> error + ParsedNote option" where
  "extractNoteFromJsonLd rt data =
     bindE (prop_or_prop_or_empty rt data (ascii ''name'') (ascii ''headline'')) (\<lambda>title'.
     bindE (rawContent rt data) (\<lambda>content'.
       if \<not> truthy rt content' then Inr None
       else bindE (call_trim content') (\<lambda>trimmed.
         if length trimmed = 0 then Inr None
         else bindE (recoverCreatedAt rt data) (\<lambda>createdAt'.
              bindE (call_trim title') (\<lambda>t.
              bindE (call_trim content') (\<lambda>c.
                Inr (Some \<lparr>title = t, content = c, createdAt = createdAt'\<rparr>)))))))"

subsection \<open>\<open>extractNoteFromHtml\<close>\<close>

definition extractNoteFromHtml :: "cheerio_doc \<Rightarrow> ParsedNote option" where
  "extractNoteFromHtml doc =
     (let title' = (if title_tag_text doc \<noteq> [] then title_tag_text doc
                    else if title_class_text doc \<noteq> [] then title_class_text doc
                    else []);
          content0 = (if content_class_length doc > 0 then content_class_text doc
                      else body_text doc);
          content' = trim (replace_ws_runs content0)
      in if content' = [] \<or> length content' = 0 then None
         else Some \<lparr>title = trim title', content = trim content', createdAt = None\<rparr>)"

subsection \<open>\<open>parseKeepHtmlNote\<close>\<close>

text \<open>\<open>if (Array.isArray(jsonData)) jsonData = jsonData[0]\<close>.\<close>

definition workingObject :: "'n jsval \<Rightarrow> 'n jsval" where
  "workingObject parsed = (if isArray parsed then first_element parsed else parsed)"

text \<open>
  The structured-data branch of \<open>parseKeepHtmlNote\<close>: \<open>Some r\<close> when the function
  returns \<open>r\<close> from \<open>return extractNoteFromJsonLd(jsonData)\<close>, \<open>None\<close> when control
  reaches \<open>return extractNoteFromHtml($)\<close>. The \<open>catch\<close> swallows whatever the
  \<open>try\<close> block throws.
\<close>

definition jsonLdBranch :: "'n runtime \<Rightarrow> cheerio_doc \<Rightarrow> ParsedNote option option" where
  "jsonLdBranch rt doc =
     (case script_html doc of
        None \<Rightarrow> None
      | Some jsonLdScript \<Rightarrow>
          if jsonLdScript = [] then None
          else (case JSON_parse rt jsonLdScript of
                  Inl err \<Rightarrow> None
                | Inr parsed \<Rightarrow>
                    let jsonData = workingObject parsed
                    in if truthy rt jsonData
                       then (case extractNoteFromJsonLd rt jsonData of
                               Inl err \<Rightarrow> None
                             | Inr r \<Rightarrow> Some r)
                       else None))"

text \<open>\<open>parseKeepHtmlNote\<close> on a loaded document, and on the text of an entry.\<close>

definition parseKeepHtmlNote_doc :: "'n runtime \<Rightarrow> cheerio_doc \<Rightarrow> ParsedNote option" where
  "parseKeepHtmlNote_doc rt doc =
     (case jsonLdBranch rt doc of
        Some r \<Rightarrow> r
      | None \<Rightarrow> extractNoteFromHtml doc)"

definition parseKeepHtmlNote :: "'n runtime \<Rightarrow> jstring \<Rightarrow> error + ParsedNote option" where
  "parseKeepHtmlNote rt html =
     bindE (cheerio_load rt html) (\<lambda>doc. Inr (parseKeepHtmlNote_doc rt doc))"

subsection \<open>\<open>parseGoogleKeepTakeout\<close>\<close>

text \<open>The body of the \<open>try\<close> block up to the note.\<close>

definition tryEntry :: "'n runtime \<Rightarrow> zip_entry \<Rightarrow> error + ParsedNote option" where
  "tryEntry rt entry =
     bindE (getData entry) (\<lambda>buf. parseKeepHtmlNote rt (utf8_toString rt buf))"

text \<open>The loop over the entries, with \<open>parsedNotes\<close> as the accumulator.\<close>

fun scanEntries :: "'n runtime \<Rightarrow> zip_entry list \<Rightarrow> ParsedNote list \<Rightarrow> ParsedNote list" where
  "scanEntries rt [] parsedNotes = parsedNotes"
| "scanEntries rt (entry # entries) parsedNotes =
     scanEntries rt entries
       (if isKeepHtmlFile rt (entryName entry)
        then (case tryEntry rt entry of
                Inl err \<Rightarrow> parsedNotes
              | Inr None \<Rightarrow> parsedNotes
              | Inr (Some note) \<Rightarrow>
                  if length (trim (content note)) > 0 then parsedNotes @ [note]
                  else parsedNotes)
        else parsedNotes)"

definition parseGoogleKeepTakeout :: "'n runtime \<Rightarrow> buffer \<Rightarrow> error + ParsedNote list" where
  "parseGoogleKeepTakeout rt zipBuffer =
     bindE (AdmZip_getEntries rt zipBuffer) (\<lambda>zipEntries. Inr (scanEntries rt zipEntries []))"

subsection \<open>\<open>formatNoteContent\<close>\<close>

definition formatNoteContent :: "jstring \<Rightarrow> jstring" where
  "formatNoteContent content' = trim (replace_nl_runs (replace_cr (replace_crlf content')))"

section \<open>The service: the record handed to storage\<close>

record NoteCreate =
  row_title :: jstring
  row_content :: jstring
  row_userId :: jstring
  row_createdAt :: int

definition MAX_CONTENT_LENGTH :: nat where
  "MAX_CONTENT_LENGTH = 65535"

definition substring0 :: "jstring \<Rightarrow> nat \<Rightarrow> jstring" where
  "substring0 s n = take n s"

text \<open>
  The function mapped over \<open>parsedNotes\<close> in \<open>parseAndSaveNotes\<close>; \<open>now\<close> is what
  \<open>new Date()\<close> gives at that moment. A \<open>Date\<close> object is always truthy, so
  \<open>note.createdAt || new Date()\<close> takes the second only when \<open>createdAt\<close> is unset.
\<close>

definition noteToCreate :: "jstring \<Rightarrow> int \<Rightarrow> ParsedNote \<Rightarrow> NoteCreate" where
  "noteToCreate userId now note =
     \<lparr>row_title = (if title note \<noteq> [] then substring0 (title note) 255
                    else ascii ''Imported Keep Note''),
      row_content = substring0 (content note) MAX_CONTENT_LENGTH,
      row_userId = userId,
      row_createdAt = (case createdAt note of Some t \<Rightarrow> t | None \<Rightarrow> now)\<rparr>"

section \<open>Properties and sample inputs\<close>

text \<open>A string without leading or trailing whitespace.\<close>

definition trimmed :: "jstring \<Rightarrow> bool" where
  "trimmed s \<longleftrightarrow> s = [] \<or> (\<not> isWhiteSpace (hd s) \<and> \<not> isWhiteSpace (last s))"

text \<open>A string that is empty or whitespace only.\<close>

definition blank :: "jstring \<Rightarrow> bool" where
  "blank s \<longleftrightarrow> list_all isWhiteSpace s"

text \<open>The number of newlines a string starts with.\<close>

definition lead :: "jstring \<Rightarrow> nat" where
  "lead s = length (takeWhile (\<lambda>d. d = 0x0A) s)"

text \<open>
  The output form of the content-normalization helper, in the specification's words: newlines
  are the only line endings (no carriage return is left), no three newlines in a row, and
  no whitespace at either end.
\<close>

definition content_normal_form :: "jstring \<Rightarrow> bool" where
  "content_normal_form s \<longleftrightarrow>
     0x0D \<notin> set s \<and> \<not> sublist [0x0A, 0x0A, 0x0A] s \<and> trimmed s"

text \<open>
  A small runtime to evaluate the module on: numbers are naturals printed in decimal, letters
  are lowered in the ASCII range, a document without markup is its own body text, and the
  JSON and date parsers know a few texts.
\<close>

function decimal :: "nat \<Rightarrow> jstring" where
  "decimal n = (if n < 10 then [0x30 + of_nat n] else decimal (n div 10) @ [0x30 + of_nat (n mod 10)])"
  by pat_completeness auto
termination
  by (relation "measure id") auto

declare decimal.simps [simp del]

definition ascii_lower :: "jstring \<Rightarrow> jstring" where
  "ascii_lower s = map (\<lambda>c. if 0x41 \<le> c \<and> c \<le> 0x5A then c + 0x20 else c) s"

definition plain_doc :: "jstring \<Rightarrow> cheerio_doc" where
  "plain_doc html =
     \<lparr>script_html = None, title_tag_text = [], title_class_text = [],
      content_class_length = 0, content_class_text = [], body_text = html\<rparr>"

fun sample_date :: "nat jsval \<Rightarrow> error + int option" where
  "sample_date (JStr s) = (if s = ascii ''2020-01-01T00:00:00Z'' then Inr (Some 1577836800000)
                           else if s = ascii ''2021-01-01T00:00:00Z'' then Inr (Some 1609459200000)
                           else Inr None)"
| "sample_date (JNum n) = Inr (Some (int n))"
| "sample_date v = Inr None"

text \<open>The payload \<open>{"text":"  "}\<close>.\<close>

definition blank_text_payload :: jstring where
  "blank_text_payload =
     ascii ''{'' @ 0x22 # ascii ''text'' @ 0x22 # ascii '':'' @ 0x22 # ascii ''  '' @ 0x22 # ascii ''}''"

definition sample_json :: "jstring \<Rightarrow> error + nat jsval" where
  "sample_json s = (if s = ascii ''null'' then Inr JNull
                    else if s = ascii ''[]'' then Inr (JArr [])
                    else if s = ascii ''0'' then Inr (JNum 0)
                    else if s = blank_text_payload
                      then Inr (JObj [(ascii ''text'', JStr (ascii ''  ''))])
                    else Inl SyntaxError)"

text \<open>A document whose structured-data block holds the given payload.\<close>

definition doc_with_payload :: "jstring \<Rightarrow> jstring \<Rightarrow> cheerio_doc" where
  "doc_with_payload payload body =
     \<lparr>script_html = Some payload, title_tag_text = [], title_class_text = [],
      content_class_length = 0, content_class_text = [], body_text = body\<rparr>"

definition bytes :: "string \<Rightarrow> buffer" where
  "bytes s = map of_char s"

definition sample_entries :: "zip_entry list" where
  "sample_entries =
     [\<lparr>entryName = ascii ''Takeout/Keep/Note1.html'', getData = Inr (bytes ''  Hello   world  '')\<rparr>,
      \<lparr>entryName = ascii ''Takeout/Keep/Labels/x.html'', getData = Inr (bytes ''a label'')\<rparr>,
      \<lparr>entryName = ascii ''Takeout/Keep/Broken.html'', getData = Inl LibraryError\<rparr>,
      \<lparr>entryName = ascii ''Takeout/Keep/Blank.html'', getData = Inr (bytes ''   '')\<rparr>,
      \<lparr>entryName = ascii ''Takeout/KEEP/Note2.HTML'', getData = Inr (bytes ''second'')\<rparr>]"

definition sample_zip :: buffer where
  "sample_zip = [0x50, 0x4B, 0x03, 0x04]"

definition sample_rt :: "nat runtime" where
  "sample_rt =
     \<lparr>AdmZip_getEntries = (\<lambda>buf. if buf = sample_zip then Inr sample_entries else Inl LibraryError),
      utf8_toString = map ucast,
      cheerio_load = (\<lambda>html. Inr (plain_doc html)),
      JSON_parse = sample_json,
      Date_getTime = sample_date,
      toLowerCase = ascii_lower,
      number_truthy = (\<lambda>n. n \<noteq> 0),
      number_toString = decimal\<rparr>"

text \<open>
  A second runtime, for entries that carry a structured-data block. One document text is
  known to its loader: a script element with the payload \<open>{"text":5}\<close> followed by the
  body text \<open>body\<close>.
\<close>

definition number_text_payload :: jstring where
  "number_text_payload = ascii ''{'' @ 0x22 # ascii ''text'' @ 0x22 # ascii '':5}''"

definition number_note_bytes :: buffer where
  "number_note_bytes =
     bytes ''<script type='' @ 0x22 # bytes ''application/ld+json'' @ 0x22 # bytes ''>{''
       @ 0x22 # bytes ''text'' @ 0x22 # bytes '':5}</script>body''"

definition ld_load :: "jstring \<Rightarrow> cheerio_doc" where
  "ld_load html =
     (if html = map ucast number_note_bytes then doc_with_payload number_text_payload (ascii ''body'')
      else plain_doc html)"

text \<open>The payload \<open>{"name":"T","text":"Hello"}\<close>.\<close>

definition hello_payload :: jstring where
  "hello_payload =
     ascii ''{'' @ 0x22 # ascii ''name'' @ 0x22 # ascii '':'' @ 0x22 # ascii ''T'' @ 0x22 # ascii '',''
       @ 0x22 # ascii ''text'' @ 0x22 # ascii '':'' @ 0x22 # ascii ''Hello'' @ 0x22 # ascii ''}''"

definition ld_json :: "jstring \<Rightarrow> error + nat jsval" where
  "ld_json s = (if s = number_text_payload then Inr (JObj [(ascii ''text'', JNum 5)])
                else if s = hello_payload
                  then Inr (JObj [(ascii ''name'', JStr (ascii ''T'')),
                                  (ascii ''text'', JStr (ascii ''Hello''))])
                else sample_json s)"

definition ld_entries :: "zip_entry list" where
  "ld_entries =
     [\<lparr>entryName = ascii ''Takeout/Keep/Five.html'', getData = Inr number_note_bytes\<rparr>,
      \<lparr>entryName = ascii ''Takeout/Keep/Broken.html'', getData = Inl LibraryError\<rparr>,
      \<lparr>entryName = ascii ''Takeout/Keep/Note2.html'', getData = Inr (bytes ''second'')\<rparr>]"

definition ld_rt :: "nat runtime" where
  "ld_rt =
     \<lparr>AdmZip_getEntries = (\<lambda>buf. if buf = sample_zip then Inr ld_entries else Inl LibraryError),
      utf8_toString = map ucast,
      cheerio_load = (\<lambda>html. Inr (ld_load html)),
      JSON_parse = ld_json,
      Date_getTime = sample_date,
      toLowerCase = ascii_lower,
      number_truthy = (\<lambda>n. n \<noteq> 0),
      number_toString = decimal\<rparr>"

section \<open>Unfolding the sample inputs\<close>

lemmas sample_eval =
  sample_rt_def sample_entries_def sample_zip_def sample_json_def plain_doc_def ascii_lower_def
  doc_with_payload_def blank_text_payload_def
  ld_rt_def ld_entries_def ld_json_def ld_load_def number_note_bytes_def number_text_payload_def
  hello_payload_def
  bytes_def ascii_def isKeepHtmlFile_def startsWith_def endsWith_def
  parseGoogleKeepTakeout_def tryEntry_def parseKeepHtmlNote_def parseKeepHtmlNote_doc_def
  jsonLdBranch_def workingObject_def extractNoteFromHtml_def extractNoteFromJsonLd_def
  rawContent_def recoverCreatedAt_def checklistLine_def prop_or_prop_or_empty_def own_prop_def
  trim_def isWhiteSpace_def blank_def ballot_box_def ballot_box_checked_def Let_def

section \<open>Strings: searching and trimming\<close>

lemma startsWith_prefix: "startsWith s p \<longleftrightarrow> prefix p s"
proof
  assume "startsWith s p"
  then have "s = p @ drop (length p) s"
    unfolding startsWith_def by (metis append_take_drop_id)
  then show "prefix p s" by (rule prefixI)
next
  assume "prefix p s"
  then obtain t where "s = p @ t" by (auto simp: prefix_def)
  then show "startsWith s p" by (simp add: startsWith_def)
qed

lemma includes_str_sublist: "includes_str s p \<longleftrightarrow> sublist p s"
  by (induction s) (auto simp: startsWith_prefix sublist_Cons_right)

lemma endsWith_suffix: "endsWith s p \<longleftrightarrow> suffix p s"
proof
  assume "endsWith s p"
  then have "s = take (length s - length p) s @ p"
    unfolding endsWith_def by (metis append_take_drop_id)
  then show "suffix p s" by (rule suffixI)
next
  assume "suffix p s"
  then obtain t where "s = t @ p" by (auto simp: suffix_def)
  then show "endsWith s p" by (simp add: endsWith_def)
qed

text \<open>
  Claim C3. An entry name passes the filter of the scanner exactly when its lowered form
  contains \<open>keep\<close>, ends with \<open>.html\<close> and does not contain \<open>label\<close>; failing any
  one of the three excludes it.
\<close>

theorem isKeepHtmlFile_iff:
  "isKeepHtmlFile rt n \<longleftrightarrow>
     sublist (ascii ''keep'') (toLowerCase rt n)
     \<and> suffix (ascii ''.html'') (toLowerCase rt n)
     \<and> \<not> sublist (ascii ''label'') (toLowerCase rt n)"
  by (simp add: isKeepHtmlFile_def Let_def includes_str_sublist endsWith_suffix)

theorem isKeepHtmlFile_iff_witness:
  "isKeepHtmlFile sample_rt (ascii ''Takeout/Keep/Note1.html'')
   \<and> sublist (ascii ''keep'') (toLowerCase sample_rt (ascii ''Takeout/Keep/Note1.html''))
   \<and> \<not> isKeepHtmlFile sample_rt (ascii ''Takeout/Keep/Labels/x.html'')
   \<and> sublist (ascii ''label'') (toLowerCase sample_rt (ascii ''Takeout/Keep/Labels/x.html''))"
proof -
  have a: "isKeepHtmlFile sample_rt (ascii ''Takeout/Keep/Note1.html'')"
    by (simp add: isKeepHtmlFile_def sample_rt_def ascii_lower_def ascii_def startsWith_def endsWith_def)
  have b: "includes_str (toLowerCase sample_rt (ascii ''Takeout/Keep/Labels/x.html'')) (ascii ''label'')"
    by (simp add: sample_rt_def ascii_lower_def ascii_def startsWith_def)
  from a b show ?thesis
    using isKeepHtmlFile_iff [of sample_rt "ascii ''Takeout/Keep/Note1.html''"]
      isKeepHtmlFile_iff [of sample_rt "ascii ''Takeout/Keep/Labels/x.html''"]
    by (simp add: includes_str_sublist)
qed

lemma trimmed_trim: "trimmed s \<Longrightarrow> trim s = s"
proof (cases s)
  case Nil
  then show ?thesis by (simp add: trim_def)
next
  case (Cons x xs)
  assume "trimmed s"
  with Cons have h: "\<not> isWhiteSpace x" and l: "\<not> isWhiteSpace (last s)"
    by (auto simp: trimmed_def)
  from Cons h have 1: "dropWhile isWhiteSpace s = s" by simp
  from Cons have e: "butlast s @ [last s] = s" by simp
  have "dropWhile isWhiteSpace (rev (butlast s @ [last s])) = rev (butlast s @ [last s])"
    using l by simp
  then have "dropWhile isWhiteSpace (rev s) = rev s" by (simp only: e)
  with 1 show ?thesis by (simp add: trim_def)
qed

lemma trim_trimmed: "trimmed (trim s)"
proof -
  define t where "t = dropWhile isWhiteSpace s"
  define u where "u = rev (dropWhile isWhiteSpace (rev t))"
  have tu: "trim s = u" by (simp add: trim_def t_def u_def)
  show ?thesis
  proof (cases "u = []")
    case True
    with tu show ?thesis by (simp add: trimmed_def)
  next
    case False
    then have ne: "dropWhile isWhiteSpace (rev t) \<noteq> []" by (simp add: u_def)
    then have "\<not> isWhiteSpace (hd (dropWhile isWhiteSpace (rev t)))"
      by (rule hd_dropWhile)
    with ne have l: "\<not> isWhiteSpace (last u)"
      by (simp add: u_def last_rev)
    have "rev (takeWhile isWhiteSpace (rev t) @ dropWhile isWhiteSpace (rev t)) = rev (rev t)"
      by (simp only: takeWhile_dropWhile_id)
    then have "rev (dropWhile isWhiteSpace (rev t)) @ rev (takeWhile isWhiteSpace (rev t)) = t"
      by (simp only: rev_append rev_rev_ident)
    then have t_eq: "t = u @ rev (takeWhile isWhiteSpace (rev t))"
      by (simp only: u_def)
    with False have "hd t = hd u" by (metis hd_append2)
    moreover from t_eq False have "t \<noteq> []" by auto
    then have "\<not> isWhiteSpace (hd t)" unfolding t_def by (rule hd_dropWhile)
    ultimately show ?thesis using l tu by (simp add: trimmed_def)
  qed
qed

lemma trim_idem: "trim (trim s) = trim s"
  by (rule trimmed_trim) (rule trim_trimmed)

lemma replace_crlf_id: "0x0D \<notin> set s \<Longrightarrow> replace_crlf s = s"
  by (induction s rule: replace_crlf.induct) auto

lemma replace_cr_id: "0x0D \<notin> set s \<Longrightarrow> replace_cr s = s"
  unfolding replace_cr_def by (rule map_idI) auto

lemma takeWhile_two:
  assumes "2 \<le> length (takeWhile P cs)"
  shows "\<exists>a b r. cs = a # b # r \<and> P a \<and> P b"
proof (cases cs)
  case Nil
  with assms show ?thesis by simp
next
  case (Cons a ds)
  note c1 = Cons
  show ?thesis
  proof (cases ds)
    case Nil
    with c1 assms show ?thesis by (simp split: if_splits)
  next
    case (Cons b r)
    with c1 assms show ?thesis by (simp split: if_splits)
  qed
qed

lemma replace_nl_runs_id: "\<not> sublist [0x0A, 0x0A, 0x0A] s \<Longrightarrow> replace_nl_runs s = s"
proof (induction s)
  case Nil
  then show ?case by simp
next
  case (Cons c cs)
  from Cons.prems have tl: "\<not> sublist [0x0A, 0x0A, 0x0A] cs"
    by (simp add: sublist_Cons_right)
  have no: "\<not> (c = 0x0A \<and> 2 \<le> length (takeWhile (\<lambda>d. d = 0x0A) cs))"
  proof
    assume a: "c = 0x0A \<and> 2 \<le> length (takeWhile (\<lambda>d. d = 0x0A) cs)"
    then obtain r where "cs = 0x0A # 0x0A # r"
      using takeWhile_two [of "\<lambda>d. d = 0x0A" cs] by auto
    with a have "prefix [0x0A, 0x0A, 0x0A] (c # cs)" by simp
    then have "sublist [0x0A, 0x0A, 0x0A] (c # cs)" by (rule prefix_imp_sublist)
    with Cons.prems show False by simp
  qed
  have "replace_nl_runs (c # cs) = c # replace_nl_runs cs"
    using no by (simp only: replace_nl_runs.simps if_False)
  with Cons.IH [OF tl] show ?case by simp
qed

lemma replace_nl_runs_set: "set (replace_nl_runs s) \<subseteq> set s"
proof (induction s rule: replace_nl_runs.induct)
  case 1
  show ?case by simp
next
  case (2 c cs)
  show ?case
  proof (cases "c = 0x0A \<and> 2 \<le> length (takeWhile (\<lambda>d. d = 0x0A) cs)")
    case True
    have "set (dropWhile (\<lambda>d. d = 0x0A) cs) \<subseteq> set cs"
      by (auto dest: set_dropWhileD)
    with 2(1) [OF True] True show ?thesis by auto
  next
    case False
    with 2(2) [OF False] show ?thesis by auto
  qed
qed

lemma takeWhile_dropWhile_Nil: "takeWhile P (dropWhile P xs) = []"
  by (induction xs) auto

lemma lead_replace_nl_runs: "lead (replace_nl_runs s) = min (lead s) 2"
proof (induction s rule: replace_nl_runs.induct)
  case 1
  show ?case by (simp add: lead_def)
next
  case (2 c cs)
  show ?case
  proof (cases "c = 0x0A \<and> 2 \<le> length (takeWhile (\<lambda>d. d = 0x0A) cs)")
    case True
    have "lead (dropWhile (\<lambda>d. d = 0x0A) cs) = 0"
      by (simp add: lead_def takeWhile_dropWhile_Nil)
    with 2(1) [OF True] have "lead (replace_nl_runs (dropWhile (\<lambda>d. d = 0x0A) cs)) = 0" by simp
    with True show ?thesis by (simp add: lead_def)
  next
    case False
    with 2(2) [OF False] show ?thesis by (auto simp: lead_def)
  qed
qed

lemma prefix_two_lead: "prefix [0x0A, 0x0A] s \<Longrightarrow> 2 \<le> lead s"
  by (cases s; cases "tl s") (auto simp: lead_def)

lemma prefix_one_lead: "prefix [0x0A] s \<Longrightarrow> 1 \<le> lead s"
  by (cases s) (auto simp: lead_def)

lemma replace_nl_runs_no_triple: "\<not> sublist [0x0A, 0x0A, 0x0A] (replace_nl_runs s)"
proof (induction s rule: replace_nl_runs.induct)
  case 1
  show ?case by simp
next
  case (2 c cs)
  show ?case
  proof (cases "c = 0x0A \<and> 2 \<le> length (takeWhile (\<lambda>d. d = 0x0A) cs)")
    case True
    define R where "R = replace_nl_runs (dropWhile (\<lambda>d. d = 0x0A) cs)"
    have ih: "\<not> sublist [0x0A, 0x0A, 0x0A] R"
      unfolding R_def by (rule 2(1) [OF True])
    have "lead (dropWhile (\<lambda>d. d = 0x0A) cs) = 0"
      by (simp add: lead_def takeWhile_dropWhile_Nil)
    then have "lead R = 0"
      by (simp add: R_def lead_replace_nl_runs)
    then have a: "\<not> prefix [0x0A] R" and b: "\<not> prefix [0x0A, 0x0A] R"
      using prefix_one_lead [of R] prefix_two_lead [of R] by auto
    have out: "replace_nl_runs (c # cs) = 0x0A # 0x0A # R"
      using True by (simp add: R_def)
    show ?thesis
      unfolding out using ih a b by (simp add: sublist_Cons_right)
  next
    case False
    define R where "R = replace_nl_runs cs"
    have ih: "\<not> sublist [0x0A, 0x0A, 0x0A] R"
      unfolding R_def by (rule 2(2) [OF False])
    have out: "replace_nl_runs (c # cs) = c # R"
      using False by (simp only: replace_nl_runs.simps R_def if_False)
    have "\<not> prefix [0x0A, 0x0A, 0x0A] (c # R)"
    proof
      assume p: "prefix [0x0A, 0x0A, 0x0A] (c # R)"
      then have c: "c = 0x0A" and "prefix [0x0A, 0x0A] R" by auto
      then have "2 \<le> lead R" using prefix_two_lead by blast
      then have "2 \<le> lead cs" by (simp add: R_def lead_replace_nl_runs)
      with c False show False by (simp add: lead_def)
    qed
    with ih show ?thesis
      unfolding out by (simp only: sublist_Cons_right simp_thms)
  qed
qed

lemma trim_sublist: "sublist (trim s) s"
proof -
  have 1: "suffix (dropWhile isWhiteSpace s) s" by (rule suffix_dropWhile)
  have "suffix (dropWhile isWhiteSpace (rev (dropWhile isWhiteSpace s))) (rev (dropWhile isWhiteSpace s))"
    by (rule suffix_dropWhile)
  then have "prefix (rev (dropWhile isWhiteSpace (rev (dropWhile isWhiteSpace s)))) (rev (rev (dropWhile isWhiteSpace s)))"
    by (simp only: suffix_to_prefix rev_rev_ident)
  then have 2: "prefix (trim s) (dropWhile isWhiteSpace s)"
    by (simp only: trim_def rev_rev_ident)
  from 2 have "sublist (trim s) (dropWhile isWhiteSpace s)" by (rule prefix_imp_sublist)
  moreover from 1 have "sublist (dropWhile isWhiteSpace s) s" by (rule suffix_imp_sublist)
  ultimately show ?thesis by (rule sublist_order.order_trans)
qed

lemma formatNoteContent_normal_form: "content_normal_form (formatNoteContent s)"
proof -
  define u where "u = replace_nl_runs (replace_cr (replace_crlf s))"
  have f: "formatNoteContent s = trim u" by (simp add: formatNoteContent_def u_def)
  have "0x0D \<notin> set (replace_cr (replace_crlf s))" by (auto simp: replace_cr_def)
  with replace_nl_runs_set [of "replace_cr (replace_crlf s)"] have "0x0D \<notin> set u"
    unfolding u_def by blast
  moreover have "set (trim u) \<subseteq> set u"
    using trim_sublist [of u] by (rule set_mono_sublist)
  ultimately have 1: "0x0D \<notin> set (trim u)" by blast
  have "\<not> sublist [0x0A, 0x0A, 0x0A] u" unfolding u_def by (rule replace_nl_runs_no_triple)
  then have 2: "\<not> sublist [0x0A, 0x0A, 0x0A] (trim u)"
    using trim_sublist [of u] sublist_order.order_trans by blast
  from 1 2 show ?thesis
    unfolding f content_normal_form_def by (simp add: trim_trimmed)
qed

text \<open>
  Claim C9. On a string already in the output form (no carriage return, no three newlines
  in a row, no whitespace at either end) \<open>formatNoteContent\<close> returns the string unchanged.
  Every output of \<open>formatNoteContent\<close> is in that form, so the function is idempotent.
\<close>

theorem formatNoteContent_fixpoint:
  "(content_normal_form s \<longrightarrow> formatNoteContent s = s)
   \<and> content_normal_form (formatNoteContent t)
   \<and> formatNoteContent (formatNoteContent t) = formatNoteContent t"
proof -
  have fp: "formatNoteContent u = u" if "content_normal_form u" for u
    using that
    by (simp add: content_normal_form_def formatNoteContent_def replace_crlf_id replace_cr_id
        replace_nl_runs_id trimmed_trim)
  from fp [of s] fp [OF formatNoteContent_normal_form [of t]] formatNoteContent_normal_form [of t]
  show ?thesis by blast
qed

theorem formatNoteContent_fixpoint_witness:
  "content_normal_form (ascii ''a'' @ [0x0A, 0x0A] @ ascii ''b'')
   \<and> formatNoteContent (ascii ''a'' @ [0x0A, 0x0A] @ ascii ''b'') = ascii ''a'' @ [0x0A, 0x0A] @ ascii ''b''
   \<and> formatNoteContent ([0x20] @ ascii ''a'' @ [0x0D, 0x0A, 0x0D, 0x0A, 0x0A, 0x0D] @ ascii ''b'' @ [0x0A])
       = ascii ''a'' @ [0x0A, 0x0A] @ ascii ''b''
   \<and> content_normal_form
        (formatNoteContent ([0x20] @ ascii ''a'' @ [0x0D, 0x0A, 0x0D, 0x0A, 0x0A, 0x0D] @ ascii ''b'' @ [0x0A]))"
proof -
  have "\<not> includes_str (ascii ''a'' @ [0x0A, 0x0A] @ ascii ''b'') [0x0A, 0x0A, 0x0A]"
    by (simp add: ascii_def startsWith_def)
  then have h: "content_normal_form (ascii ''a'' @ [0x0A, 0x0A] @ ascii ''b'')"
    by (simp add: content_normal_form_def includes_str_sublist)
      (simp add: ascii_def trimmed_def isWhiteSpace_def)
  have e: "formatNoteContent ([0x20] @ ascii ''a'' @ [0x0D, 0x0A, 0x0D, 0x0A, 0x0A, 0x0D] @ ascii ''b'' @ [0x0A])
       = ascii ''a'' @ [0x0A, 0x0A] @ ascii ''b''"
    by (simp add: formatNoteContent_def ascii_def trim_def replace_cr_def isWhiteSpace_def)
  from h e
    formatNoteContent_fixpoint [of "ascii ''a'' @ [0x0A, 0x0A] @ ascii ''b''"
      "[0x20] @ ascii ''a'' @ [0x0D, 0x0A, 0x0D, 0x0A, 0x0A, 0x0D] @ ascii ''b'' @ [0x0A]"]
  show ?thesis by blast
qed

section \<open>Exceptions as values\<close>

lemma bindE_Inr_iff: "bindE m f = Inr y \<longleftrightarrow> (\<exists>x. m = Inr x \<and> f x = Inr y)"
  by (cases m) (simp_all add: bindE_def)

lemma bindE_simps [simp]: "bindE (Inl e) f = Inl e" "bindE (Inr x) f = f x"
  by (simp_all add: bindE_def)

lemma call_trim_Inr_iff: "call_trim v = Inr t \<longleftrightarrow> (\<exists>s. v = JStr s \<and> t = trim s)"
  by (cases v) auto

lemma trim_Nil_iff: "trim s = [] \<longleftrightarrow> blank s"
proof -
  have "trim s = [] \<longleftrightarrow> (\<forall>x\<in>set (dropWhile isWhiteSpace s). isWhiteSpace x)"
    by (simp add: trim_def dropWhile_eq_Nil_conv)
  also have "\<dots> \<longleftrightarrow> dropWhile isWhiteSpace s = []"
  proof
    assume a: "\<forall>x\<in>set (dropWhile isWhiteSpace s). isWhiteSpace x"
    show "dropWhile isWhiteSpace s = []"
    proof (rule ccontr)
      assume ne: "dropWhile isWhiteSpace s \<noteq> []"
      then have "\<not> isWhiteSpace (hd (dropWhile isWhiteSpace s))" by (rule hd_dropWhile)
      moreover from ne have "hd (dropWhile isWhiteSpace s) \<in> set (dropWhile isWhiteSpace s)"
        by (rule hd_in_set)
      ultimately show False using a by blast
    qed
  next
    assume e: "dropWhile isWhiteSpace s = []"
    show "\<forall>x\<in>set (dropWhile isWhiteSpace s). isWhiteSpace x"
      unfolding e by simp
  qed
  also have "\<dots> \<longleftrightarrow> blank s"
    by (simp add: blank_def dropWhile_eq_Nil_conv list_all_iff)
  finally show ?thesis .
qed

lemma trim_not_blank: "trim s \<noteq> [] \<Longrightarrow> \<not> blank (trim s)"
  using trim_Nil_iff [of "trim s"] by (simp add: trim_idem)

lemma extractNoteFromJsonLd_Some:
  assumes "extractNoteFromJsonLd rt d = Inr (Some n)"
  shows "\<exists>ts s. prop_or_prop_or_empty rt d (ascii ''name'') (ascii ''headline'') = Inr (JStr ts)
            \<and> rawContent rt d = Inr (JStr s) \<and> trim s \<noteq> []
            \<and> recoverCreatedAt rt d = Inr (createdAt n)
            \<and> title n = trim ts \<and> content n = trim s"
  using assms unfolding extractNoteFromJsonLd_def
  by (auto simp: bindE_Inr_iff call_trim_Inr_iff split: if_splits)

lemma extractNoteFromJsonLd_not_blank:
  "extractNoteFromJsonLd rt d = Inr (Some n) \<Longrightarrow> \<not> blank (content n)"
  by (auto dest!: extractNoteFromJsonLd_Some simp: trim_not_blank)

lemma extractNoteFromHtml_not_blank:
  "extractNoteFromHtml doc = Some n \<Longrightarrow> \<not> blank (content n)"
  by (auto simp: extractNoteFromHtml_def Let_def trim_idem trim_not_blank split: if_splits)

lemma scanEntries_not_blank:
  "\<forall>n\<in>set acc. \<not> blank (content n) \<Longrightarrow> \<forall>n\<in>set (scanEntries rt es acc). \<not> blank (content n)"
proof (induction es arbitrary: acc)
  case Nil
  then show ?case by simp
next
  case (Cons e es)
  show ?case
    unfolding scanEntries.simps
    by (rule Cons.IH) (use Cons.prems in \<open>auto simp: trim_Nil_iff split: sum.splits option.splits\<close>)
qed

text \<open>
  Claim C5. Every note in the output of \<open>parseGoogleKeepTakeout\<close> has content that is
  neither empty nor whitespace only, and so has every note that \<open>extractNoteFromJsonLd\<close>
  or \<open>extractNoteFromHtml\<close> returns.
\<close>

theorem emitted_content_not_blank:
  "(parseGoogleKeepTakeout rt zipBuffer = Inr notes \<longrightarrow> (\<forall>n\<in>set notes. content n \<noteq> [] \<and> \<not> blank (content n)))
   \<and> (extractNoteFromJsonLd rt d = Inr (Some n1) \<longrightarrow> content n1 \<noteq> [] \<and> \<not> blank (content n1))
   \<and> (extractNoteFromHtml doc = Some n2 \<longrightarrow> content n2 \<noteq> [] \<and> \<not> blank (content n2))"
proof -
  have nb: "\<And>s. \<not> blank s \<Longrightarrow> s \<noteq> []" by (auto simp: blank_def)
  have "parseGoogleKeepTakeout rt zipBuffer = Inr notes \<Longrightarrow> \<forall>n\<in>set notes. \<not> blank (content n)"
    using scanEntries_not_blank [of "[]" rt]
    by (auto simp: parseGoogleKeepTakeout_def bindE_Inr_iff)
  then show ?thesis
    using extractNoteFromJsonLd_not_blank [of rt d n1] extractNoteFromHtml_not_blank [of doc n2] nb
    by blast
qed

theorem emitted_content_not_blank_witness:
  "parseGoogleKeepTakeout sample_rt sample_zip =
     Inr [\<lparr>title = [], content = ascii ''Hello world'', createdAt = None\<rparr>,
          \<lparr>title = [], content = ascii ''second'', createdAt = None\<rparr>]
   \<and> \<not> blank (ascii ''Hello world'') \<and> \<not> blank (ascii ''second'')
   \<and> extractNoteFromJsonLd sample_rt (JObj [(ascii ''text'', JStr (ascii '' Hi ''))]) =
       Inr (Some \<lparr>title = [], content = ascii ''Hi'', createdAt = None\<rparr>)
   \<and> \<not> blank (ascii ''Hi'')
   \<and> extractNoteFromHtml (plain_doc (ascii '' a   b '')) =
       Some \<lparr>title = [], content = ascii ''a b'', createdAt = None\<rparr>
   \<and> \<not> blank (ascii ''a b'')"
proof -
  have a: "parseGoogleKeepTakeout sample_rt sample_zip =
     Inr [\<lparr>title = [], content = ascii ''Hello world'', createdAt = None\<rparr>,
          \<lparr>title = [], content = ascii ''second'', createdAt = None\<rparr>]"
    by (simp add: sample_eval)
  have b: "extractNoteFromJsonLd sample_rt (JObj [(ascii ''text'', JStr (ascii '' Hi ''))]) =
       Inr (Some \<lparr>title = [], content = ascii ''Hi'', createdAt = None\<rparr>)"
    by (simp add: sample_eval)
  have c: "extractNoteFromHtml (plain_doc (ascii '' a   b '')) =
       Some \<lparr>title = [], content = ascii ''a b'', createdAt = None\<rparr>"
    by (simp add: sample_eval)
  from a b c show ?thesis
    using emitted_content_not_blank [of sample_rt sample_zip
        "[\<lparr>title = [], content = ascii ''Hello world'', createdAt = None\<rparr>,
          \<lparr>title = [], content = ascii ''second'', createdAt = None\<rparr>]"
        "JObj [(ascii ''text'', JStr (ascii '' Hi ''))]"
        "\<lparr>title = [], content = ascii ''Hi'', createdAt = None\<rparr>"
        "plain_doc (ascii '' a   b '')"
        "\<lparr>title = [], content = ascii ''a b'', createdAt = None\<rparr>"]
    by simp
qed

section \<open>The scan over the archive\<close>

lemma scanEntries_acc: "scanEntries rt es acc = acc @ scanEntries rt es []"
proof (induction es arbitrary: acc)
  case Nil
  show ?case by simp
next
  case (Cons e es)
  show ?case
    unfolding scanEntries.simps
    by (subst Cons.IH, subst (2) Cons.IH) (simp split: sum.splits option.splits)
qed

lemma scanEntries_Cons: "scanEntries rt (e # es) [] = scanEntries rt [e] [] @ scanEntries rt es []"
proof -
  have "scanEntries rt (e # es) [] = scanEntries rt es (scanEntries rt [e] [])"
    by simp
  then show ?thesis by (simp only: scanEntries_acc [of rt es "scanEntries rt [e] []"])
qed

lemma scanEntries_concat: "scanEntries rt es [] = concat (map (\<lambda>e. scanEntries rt [e] []) es)"
proof (induction es)
  case Nil
  show ?case by simp
next
  case (Cons e es)
  have "scanEntries rt (e # es) [] = scanEntries rt [e] [] @ scanEntries rt es []"
    by (rule scanEntries_Cons)
  with Cons.IH show ?case by simp
qed

lemma scanEntries_single_le: "length (scanEntries rt [e] []) \<le> 1"
  by (simp split: sum.splits option.splits)

text \<open>
  Claim C6. The output of \<open>parseGoogleKeepTakeout\<close> is the concatenation, in the order
  of the archive's entries, of what each entry contributes on its own, and an entry
  contributes one note or none: the notes keep the order of their entries.
\<close>

theorem output_in_entry_order:
  "AdmZip_getEntries rt zipBuffer = Inr zipEntries \<Longrightarrow>
     parseGoogleKeepTakeout rt zipBuffer = Inr (concat (map (\<lambda>e. scanEntries rt [e] []) zipEntries))
     \<and> (\<forall>e. length (scanEntries rt [e] []) \<le> 1)"
  using scanEntries_concat [of rt zipEntries] scanEntries_single_le [of rt]
  by (simp add: parseGoogleKeepTakeout_def)

theorem output_in_entry_order_witness:
  "AdmZip_getEntries sample_rt sample_zip = Inr sample_entries
   \<and> parseGoogleKeepTakeout sample_rt sample_zip =
       Inr (concat (map (\<lambda>e. scanEntries sample_rt [e] []) sample_entries))
   \<and> map (\<lambda>e. scanEntries sample_rt [e] []) sample_entries =
       [[\<lparr>title = [], content = ascii ''Hello world'', createdAt = None\<rparr>], [], [], [],
        [\<lparr>title = [], content = ascii ''second'', createdAt = None\<rparr>]]"
proof -
  have h: "AdmZip_getEntries sample_rt sample_zip = Inr sample_entries"
    by (simp add: sample_rt_def)
  have m: "map (\<lambda>e. scanEntries sample_rt [e] []) sample_entries =
       [[\<lparr>title = [], content = ascii ''Hello world'', createdAt = None\<rparr>], [], [], [],
        [\<lparr>title = [], content = ascii ''second'', createdAt = None\<rparr>]]"
    by (simp add: sample_eval)
  from h m output_in_entry_order [OF h] show ?thesis by simp
qed

lemma scanEntries_throw: "isl (tryEntry rt e) \<Longrightarrow> scanEntries rt [e] [] = []"
  by (cases "tryEntry rt e") simp_all

lemma scanEntries_filter:
  "scanEntries rt (filter (\<lambda>e. \<not> isl (tryEntry rt e)) es) [] = scanEntries rt es []"
proof (induction es)
  case Nil
  show ?case by simp
next
  case (Cons e es)
  show ?case
  proof (cases "isl (tryEntry rt e)")
    case True
    then show ?thesis
      using Cons.IH scanEntries_Cons [of rt e es] by (simp add: scanEntries_throw del: scanEntries.simps)
  next
    case False
    then show ?thesis
      using Cons.IH scanEntries_Cons [of rt e es]
        scanEntries_Cons [of rt e "filter (\<lambda>e. \<not> isl (tryEntry rt e)) es"]
      by (simp del: scanEntries.simps)
  qed
qed

lemma parseKeepHtmlNote_doc_not_blank:
  "parseKeepHtmlNote_doc rt doc = Some n \<Longrightarrow> \<not> blank (content n)"
  by (auto simp: parseKeepHtmlNote_doc_def jsonLdBranch_def Let_def
      dest: extractNoteFromJsonLd_not_blank extractNoteFromHtml_not_blank
      split: option.splits sum.splits if_splits)

lemma tryEntry_isl_iff:
  "isl (tryEntry rt e) \<longleftrightarrow>
     isl (getData e) \<or> (\<exists>buf. getData e = Inr buf \<and> isl (cheerio_load rt (utf8_toString rt buf)))"
  by (cases "getData e"; cases "cheerio_load rt (utf8_toString rt (projr (getData e)))")
    (auto simp: tryEntry_def parseKeepHtmlNote_def)

lemma scanEntries_loaded:
  assumes "isKeepHtmlFile rt (entryName e)" "getData e = Inr buf"
    "cheerio_load rt (utf8_toString rt buf) = Inr doc"
  shows "scanEntries rt [e] [] = (case parseKeepHtmlNote_doc rt doc of None \<Rightarrow> [] | Some n \<Rightarrow> [n])"
proof -
  from assms have t: "tryEntry rt e = Inr (parseKeepHtmlNote_doc rt doc)"
    by (simp add: tryEntry_def parseKeepHtmlNote_def)
  show ?thesis
  proof (cases "parseKeepHtmlNote_doc rt doc")
    case None
    with t assms(1) show ?thesis by simp
  next
    case (Some n)
    then have "trim (content n) \<noteq> []"
      using parseKeepHtmlNote_doc_not_blank [of rt doc n] by (simp add: trim_Nil_iff)
    with t assms(1) Some show ?thesis by simp
  qed
qed

lemma scanEntries_not_candidate:
  "\<not> isKeepHtmlFile rt (entryName e) \<Longrightarrow> scanEntries rt [e] [] = []"
  by simp

lemma structured_throw_falls_back:
  assumes "script_html doc = Some s"
    and "isl (JSON_parse rt s) \<or> (\<exists>p. JSON_parse rt s = Inr p \<and> isl (extractNoteFromJsonLd rt (workingObject p)))"
  shows "parseKeepHtmlNote_doc rt doc = extractNoteFromHtml doc"
  using assms
  by (auto simp: parseKeepHtmlNote_doc_def jsonLdBranch_def Let_def split: sum.splits)

text \<open>
  Claim C7, as the code has it. A throw that leaves the \<open>try\<close> block of the loop (from
  \<open>getData\<close> or from loading the document) drops that entry alone: the scan returns, its
  output is the concatenation in entry order of what each entry contributes, and such an
  entry contributes nothing. An entry that is read and loaded contributes the result of
  \<open>parseKeepHtmlNote\<close>. A throw of \<open>JSON.parse\<close> or of \<open>extractNoteFromJsonLd\<close> is
  caught inside \<open>parseKeepHtmlNote\<close>: the entry is not dropped, it contributes what
  \<open>extractNoteFromHtml\<close> finds.
\<close>

theorem throwing_entry_skipped:
  "AdmZip_getEntries rt zipBuffer = Inr zipEntries \<Longrightarrow>
     parseGoogleKeepTakeout rt zipBuffer = Inr (concat (map (\<lambda>e. scanEntries rt [e] []) zipEntries))
     \<and> parseGoogleKeepTakeout rt zipBuffer =
         Inr (scanEntries rt (filter (\<lambda>e. \<not> isl (tryEntry rt e)) zipEntries) [])
     \<and> (\<forall>e. isl (tryEntry rt e) \<longleftrightarrow>
           isl (getData e)
           \<or> (\<exists>buf. getData e = Inr buf \<and> isl (cheerio_load rt (utf8_toString rt buf))))
     \<and> (\<forall>e. isl (tryEntry rt e) \<longrightarrow> scanEntries rt [e] [] = [])
     \<and> (\<forall>e. \<not> isKeepHtmlFile rt (entryName e) \<longrightarrow> scanEntries rt [e] [] = [])
     \<and> (\<forall>e buf doc. isKeepHtmlFile rt (entryName e) \<and> getData e = Inr buf
           \<and> cheerio_load rt (utf8_toString rt buf) = Inr doc
         \<longrightarrow> scanEntries rt [e] [] =
               (case parseKeepHtmlNote_doc rt doc of None \<Rightarrow> [] | Some n \<Rightarrow> [n]))
     \<and> (\<forall>doc s. script_html doc = Some s
           \<and> (isl (JSON_parse rt s)
               \<or> (\<exists>p. JSON_parse rt s = Inr p \<and> isl (extractNoteFromJsonLd rt (workingObject p))))
         \<longrightarrow> parseKeepHtmlNote_doc rt doc = extractNoteFromHtml doc)"
proof -
  assume g: "AdmZip_getEntries rt zipBuffer = Inr zipEntries"
  from g have 1: "parseGoogleKeepTakeout rt zipBuffer =
      Inr (concat (map (\<lambda>e. scanEntries rt [e] []) zipEntries))"
    using scanEntries_concat [of rt zipEntries] by (simp add: parseGoogleKeepTakeout_def)
  from g have 2: "parseGoogleKeepTakeout rt zipBuffer =
       Inr (scanEntries rt (filter (\<lambda>e. \<not> isl (tryEntry rt e)) zipEntries) [])"
    by (simp add: parseGoogleKeepTakeout_def scanEntries_filter)
  have 3: "\<forall>e. isl (tryEntry rt e) \<longleftrightarrow>
           isl (getData e)
           \<or> (\<exists>buf. getData e = Inr buf \<and> isl (cheerio_load rt (utf8_toString rt buf)))"
    using tryEntry_isl_iff [of rt] by blast
  have 4: "\<forall>e. isl (tryEntry rt e) \<longrightarrow> scanEntries rt [e] [] = []"
    using scanEntries_throw [of rt] by blast
  have 5: "\<forall>e. \<not> isKeepHtmlFile rt (entryName e) \<longrightarrow> scanEntries rt [e] [] = []"
    using scanEntries_not_candidate [of rt] by blast
  have 6: "\<forall>e buf doc. isKeepHtmlFile rt (entryName e) \<and> getData e = Inr buf
           \<and> cheerio_load rt (utf8_toString rt buf) = Inr doc
         \<longrightarrow> scanEntries rt [e] [] =
               (case parseKeepHtmlNote_doc rt doc of None \<Rightarrow> [] | Some n \<Rightarrow> [n])"
    using scanEntries_loaded [of rt] by blast
  have 7: "\<forall>doc s. script_html doc = Some s
           \<and> (isl (JSON_parse rt s)
               \<or> (\<exists>p. JSON_parse rt s = Inr p \<and> isl (extractNoteFromJsonLd rt (workingObject p))))
         \<longrightarrow> parseKeepHtmlNote_doc rt doc = extractNoteFromHtml doc"
    using structured_throw_falls_back [of _ _ rt] by blast
  from 1 2 3 4 5 6 7 show ?thesis by (intro conjI)
qed

text \<open>
  The claim as stated fails: for the entry with the payload \<open>{"text":5}\<close> the extraction
  step \<open>extractNoteFromJsonLd\<close> throws, and the entry is not skipped: it yields the note
  made from its body text.
\<close>

theorem throwing_entry_skipped_counterexample:
  "isKeepHtmlFile ld_rt (entryName (ld_entries ! 0))
   \<and> getData (ld_entries ! 0) = Inr number_note_bytes
   \<and> cheerio_load ld_rt (utf8_toString ld_rt number_note_bytes)
       = Inr (doc_with_payload number_text_payload (ascii ''body''))
   \<and> JSON_parse ld_rt number_text_payload = Inr (JObj [(ascii ''text'', JNum 5)])
   \<and> extractNoteFromJsonLd ld_rt (JObj [(ascii ''text'', JNum 5)]) = Inl TypeError
   \<and> scanEntries ld_rt [ld_entries ! 0] [] = [\<lparr>title = [], content = ascii ''body'', createdAt = None\<rparr>]
   \<and> AdmZip_getEntries ld_rt sample_zip = Inr ld_entries
   \<and> parseGoogleKeepTakeout ld_rt sample_zip =
       Inr [\<lparr>title = [], content = ascii ''body'', createdAt = None\<rparr>,
            \<lparr>title = [], content = ascii ''second'', createdAt = None\<rparr>]"
  by (simp add: sample_eval)

theorem throwing_entry_skipped_witness:
  "AdmZip_getEntries ld_rt sample_zip = Inr ld_entries
   \<and> parseGoogleKeepTakeout ld_rt sample_zip =
       Inr (concat (map (\<lambda>e. scanEntries ld_rt [e] []) ld_entries))
   \<and> isl (tryEntry ld_rt (ld_entries ! 1))
   \<and> scanEntries ld_rt [ld_entries ! 1] [] = []
   \<and> isKeepHtmlFile ld_rt (entryName (ld_entries ! 0))
   \<and> getData (ld_entries ! 0) = Inr number_note_bytes
   \<and> cheerio_load ld_rt (utf8_toString ld_rt number_note_bytes)
       = Inr (doc_with_payload number_text_payload (ascii ''body''))
   \<and> parseKeepHtmlNote_doc ld_rt (doc_with_payload number_text_payload (ascii ''body''))
       = Some \<lparr>title = [], content = ascii ''body'', createdAt = None\<rparr>
   \<and> scanEntries ld_rt [ld_entries ! 0] [] = [\<lparr>title = [], content = ascii ''body'', createdAt = None\<rparr>]
   \<and> map (\<lambda>e. scanEntries ld_rt [e] []) ld_entries =
       [[\<lparr>title = [], content = ascii ''body'', createdAt = None\<rparr>], [],
        [\<lparr>title = [], content = ascii ''second'', createdAt = None\<rparr>]]"
proof -
  have h: "AdmZip_getEntries ld_rt sample_zip = Inr ld_entries"
    by (simp add: ld_rt_def)
  have t: "isl (getData (ld_entries ! 1))"
    by (simp add: ld_entries_def)
  have c: "isKeepHtmlFile ld_rt (entryName (ld_entries ! 0))"
    by (simp add: sample_eval)
  have d: "getData (ld_entries ! 0) = Inr number_note_bytes"
    by (simp add: ld_entries_def)
  have l: "cheerio_load ld_rt (utf8_toString ld_rt number_note_bytes)
       = Inr (doc_with_payload number_text_payload (ascii ''body''))"
    by (simp add: ld_rt_def ld_load_def)
  have p: "parseKeepHtmlNote_doc ld_rt (doc_with_payload number_text_payload (ascii ''body''))
       = Some \<lparr>title = [], content = ascii ''body'', createdAt = None\<rparr>"
    by (simp add: sample_eval)
  have m: "map (\<lambda>e. scanEntries ld_rt [e] []) ld_entries =
       [[\<lparr>title = [], content = ascii ''body'', createdAt = None\<rparr>], [],
        [\<lparr>title = [], content = ascii ''second'', createdAt = None\<rparr>]]"
    by (simp add: sample_eval)
  note T = throwing_entry_skipped [OF h]
  from T have 1: "parseGoogleKeepTakeout ld_rt sample_zip =
       Inr (concat (map (\<lambda>e. scanEntries ld_rt [e] []) ld_entries))" by blast
  from T t have 2: "isl (tryEntry ld_rt (ld_entries ! 1))" by blast
  from T 2 have 3: "scanEntries ld_rt [ld_entries ! 1] [] = []" by blast
  from T c d l have "scanEntries ld_rt [ld_entries ! 0] [] =
      (case parseKeepHtmlNote_doc ld_rt (doc_with_payload number_text_payload (ascii ''body'')) of
         None \<Rightarrow> [] | Some n \<Rightarrow> [n])" by blast
  with p have 4: "scanEntries ld_rt [ld_entries ! 0] [] =
      [\<lparr>title = [], content = ascii ''body'', createdAt = None\<rparr>]" by simp
  from h 1 2 3 c d l p 4 m show ?thesis by (intro conjI)
qed

section \<open>The storage record\<close>

text \<open>
  Claim C8. The record handed to storage has the note's title cut to 255 code units, or the
  placeholder \<open>Imported Keep Note\<close> when the title is empty; the content cut to 65535 code
  units; and the note's timestamp, or the current time when the note has none.
\<close>

theorem noteToCreate_shape:
  "length (row_title (noteToCreate userId now note)) \<le> 255
   \<and> row_title (noteToCreate userId now note) =
       (if title note = [] then ascii ''Imported Keep Note'' else take 255 (title note))
   \<and> length (row_content (noteToCreate userId now note)) \<le> 65535
   \<and> row_content (noteToCreate userId now note) = take 65535 (content note)
   \<and> row_createdAt (noteToCreate userId now note) =
       (case createdAt note of Some t \<Rightarrow> t | None \<Rightarrow> now)"
  by (simp add: noteToCreate_def substring0_def MAX_CONTENT_LENGTH_def ascii_def)

theorem noteToCreate_shape_witness:
  "row_title (noteToCreate (ascii ''u1'') 42 \<lparr>title = [], content = ascii ''Hello'', createdAt = None\<rparr>)
     = ascii ''Imported Keep Note''
   \<and> row_content (noteToCreate (ascii ''u1'') 42 \<lparr>title = [], content = ascii ''Hello'', createdAt = None\<rparr>)
     = ascii ''Hello''
   \<and> row_createdAt (noteToCreate (ascii ''u1'') 42 \<lparr>title = [], content = ascii ''Hello'', createdAt = None\<rparr>)
     = 42
   \<and> row_title (noteToCreate (ascii ''u1'') 42 \<lparr>title = replicate 300 0x61, content = ascii ''x'', createdAt = Some 7\<rparr>)
     = replicate 255 0x61
   \<and> row_createdAt (noteToCreate (ascii ''u1'') 42 \<lparr>title = replicate 300 0x61, content = ascii ''x'', createdAt = Some 7\<rparr>)
     = 7"
  using noteToCreate_shape [of "ascii ''u1''" 42 "\<lparr>title = [], content = ascii ''Hello'', createdAt = None\<rparr>"]
    noteToCreate_shape [of "ascii ''u1''" 42 "\<lparr>title = replicate 300 0x61, content = ascii ''x'', createdAt = Some 7\<rparr>"]
  by (simp add: ascii_def)

section \<open>Checklist lines\<close>

lemma checklistLine_Inr_iff:
  "checklistLine rt item = Inr l \<longleftrightarrow>
     (\<exists>v c t. prop_or_prop_or_empty rt item (ascii ''text'') (ascii ''name'') = Inr v
        \<and> get_prop item (ascii ''checked'') = Inr c
        \<and> ToString rt v = Inr t
        \<and> l = (if c = JBool True then ballot_box_checked else ballot_box) # 0x20 # t)"
  by (auto simp: checklistLine_def bindE_Inr_iff Let_def)

text \<open>
  Claim C10. A rendered checklist line starts with the checked box exactly when the item's
  \<open>checked\<close> property is the boolean \<open>true\<close>; for any other value (absent, \<open>null\<close>, the
  string \<open>true\<close>, the number 1) it starts with the empty box.
\<close>

theorem checked_only_when_true:
  "checklistLine rt item = Inr l \<Longrightarrow>
     l \<noteq> []
     \<and> (hd l = ballot_box_checked \<longleftrightarrow> get_prop item (ascii ''checked'') = Inr (JBool True))
     \<and> (hd l = ballot_box \<longleftrightarrow> get_prop item (ascii ''checked'') \<noteq> Inr (JBool True))"
  by (auto simp: checklistLine_Inr_iff ballot_box_def ballot_box_checked_def split: if_splits)

theorem checked_only_when_true_witness:
  "checklistLine sample_rt (JObj [(ascii ''text'', JStr (ascii ''a'')), (ascii ''checked'', JBool True)])
     = Inr (ballot_box_checked # 0x20 # ascii ''a'')
   \<and> checklistLine sample_rt (JObj [(ascii ''text'', JStr (ascii ''a'')), (ascii ''checked'', JStr (ascii ''true''))])
     = Inr (ballot_box # 0x20 # ascii ''a'')
   \<and> checklistLine sample_rt (JObj [(ascii ''text'', JStr (ascii ''a'')), (ascii ''checked'', JNum 1)])
     = Inr (ballot_box # 0x20 # ascii ''a'')
   \<and> checklistLine sample_rt (JObj [(ascii ''text'', JStr (ascii ''a'')), (ascii ''checked'', JNull)])
     = Inr (ballot_box # 0x20 # ascii ''a'')
   \<and> checklistLine sample_rt (JObj [(ascii ''text'', JStr (ascii ''a''))])
     = Inr (ballot_box # 0x20 # ascii ''a'')
   \<and> get_prop (JObj [(ascii ''text'', JStr (ascii ''a'')), (ascii ''checked'', JStr (ascii ''true''))] :: nat jsval)
         (ascii ''checked'')
     \<noteq> Inr (JBool True)
   \<and> hd (ballot_box # 0x20 # ascii ''a'') = ballot_box"
proof -
  have a: "checklistLine sample_rt (JObj [(ascii ''text'', JStr (ascii ''a'')), (ascii ''checked'', JBool True)])
     = Inr (ballot_box_checked # 0x20 # ascii ''a'')"
    by (simp add: checklistLine_def prop_or_prop_or_empty_def own_prop_def ascii_def)
  have b: "checklistLine sample_rt (JObj [(ascii ''text'', JStr (ascii ''a'')), (ascii ''checked'', JStr (ascii ''true''))])
     = Inr (ballot_box # 0x20 # ascii ''a'')"
    by (simp add: checklistLine_def prop_or_prop_or_empty_def own_prop_def ascii_def)
  have c: "checklistLine sample_rt (JObj [(ascii ''text'', JStr (ascii ''a'')), (ascii ''checked'', JNum 1)])
     = Inr (ballot_box # 0x20 # ascii ''a'')"
    by (simp add: checklistLine_def prop_or_prop_or_empty_def own_prop_def ascii_def)
  have d: "checklistLine sample_rt (JObj [(ascii ''text'', JStr (ascii ''a'')), (ascii ''checked'', JNull)])
     = Inr (ballot_box # 0x20 # ascii ''a'')"
    by (simp add: checklistLine_def prop_or_prop_or_empty_def own_prop_def ascii_def)
  have e: "checklistLine sample_rt (JObj [(ascii ''text'', JStr (ascii ''a''))])
     = Inr (ballot_box # 0x20 # ascii ''a'')"
    by (simp add: checklistLine_def prop_or_prop_or_empty_def own_prop_def ascii_def)
  have g: "get_prop (JObj [(ascii ''text'', JStr (ascii ''a'')), (ascii ''checked'', JStr (ascii ''true''))]) (ascii ''checked'')
     \<noteq> Inr (JBool True)"
    by (simp add: own_prop_def ascii_def)
  from a b c d e g checked_only_when_true [OF b] show ?thesis by simp
qed

section \<open>The two extraction paths\<close>

lemma get_prop_truthy: "truthy rt v \<Longrightarrow> \<exists>x. get_prop v k = Inr x"
  by (cases v) simp_all

lemma prop_or_prop_or_empty_truthy:
  "truthy rt v \<Longrightarrow> \<exists>x. prop_or_prop_or_empty rt v k1 k2 = Inr x"
  using get_prop_truthy [of rt v k1] get_prop_truthy [of rt v k2]
  by (auto simp: prop_or_prop_or_empty_def)

lemma extractNoteFromJsonLd_blank:
  assumes t: "truthy rt d" and r: "rawContent rt d = Inr (JStr c)" and b: "trim c = []"
  shows "extractNoteFromJsonLd rt d = Inr None"
proof -
  obtain x where "prop_or_prop_or_empty rt d (ascii ''name'') (ascii ''headline'') = Inr x"
    using prop_or_prop_or_empty_truthy [OF t] by blast
  with r b show ?thesis
    by (simp add: extractNoteFromJsonLd_def)
qed

lemma jsonLdBranch_None_iff:
  "jsonLdBranch rt doc = None \<longleftrightarrow>
     script_html doc = None \<or> script_html doc = Some []
     \<or> (\<exists>s. script_html doc = Some s
           \<and> (isl (JSON_parse rt s)
              \<or> (\<exists>p. JSON_parse rt s = Inr p
                    \<and> (\<not> truthy rt (workingObject p)
                       \<or> isl (extractNoteFromJsonLd rt (workingObject p))))))"
  by (auto simp: jsonLdBranch_def Let_def split: option.splits sum.splits)

lemma jsonLdBranch_Some_iff:
  "jsonLdBranch rt doc = Some r \<longleftrightarrow>
     (\<exists>s p. script_html doc = Some s \<and> s \<noteq> [] \<and> JSON_parse rt s = Inr p
        \<and> truthy rt (workingObject p)
        \<and> extractNoteFromJsonLd rt (workingObject p) = Inr r)"
  by (auto simp: jsonLdBranch_def Let_def split: option.splits sum.splits)

text \<open>
  Claim C1, as the code has it. \<open>parseKeepHtmlNote\<close> runs the markup-scraping fallback,
  and returns what \<open>extractNoteFromHtml\<close> returns, exactly when there is no
  structured-data block, or its text is empty, or \<open>JSON.parse\<close> throws, or the working
  object is falsy (\<open>null\<close>, \<open>false\<close>, \<open>0\<close>, the empty string, or the missing first
  element of an empty array), or \<open>extractNoteFromJsonLd\<close> throws. In every other case it
  returns what \<open>extractNoteFromJsonLd\<close> returns for the working object. When the working
  object is truthy and its content is a string that trims to nothing, the result is no
  note and the fallback is not run.
\<close>

theorem fallback_attempted_iff:
  "(let fallback =
      (script_html doc = None \<or> script_html doc = Some []
       \<or> (\<exists>s. script_html doc = Some s
             \<and> (isl (JSON_parse rt s)
                \<or> (\<exists>p. JSON_parse rt s = Inr p
                      \<and> (\<not> truthy rt (workingObject p)
                         \<or> isl (extractNoteFromJsonLd rt (workingObject p)))))))
    in (jsonLdBranch rt doc = None \<longleftrightarrow> fallback)
       \<and> (fallback \<longrightarrow> parseKeepHtmlNote_doc rt doc = extractNoteFromHtml doc)
       \<and> (\<not> fallback \<longrightarrow>
            (\<exists>s p r. script_html doc = Some s \<and> s \<noteq> [] \<and> JSON_parse rt s = Inr p
               \<and> truthy rt (workingObject p)
               \<and> extractNoteFromJsonLd rt (workingObject p) = Inr r
               \<and> parseKeepHtmlNote_doc rt doc = r)))
   \<and> (\<forall>s p c. script_html doc = Some s \<and> s \<noteq> [] \<and> JSON_parse rt s = Inr p
          \<and> truthy rt (workingObject p)
          \<and> rawContent rt (workingObject p) = Inr (JStr c) \<and> trim c = []
        \<longrightarrow> jsonLdBranch rt doc = Some None \<and> parseKeepHtmlNote_doc rt doc = None)
   \<and> (\<forall>html. cheerio_load rt html = Inr doc \<longrightarrow>
          parseKeepHtmlNote rt html = Inr (parseKeepHtmlNote_doc rt doc))"
proof -
  define fb where "fb \<longleftrightarrow>
      (script_html doc = None \<or> script_html doc = Some []
       \<or> (\<exists>s. script_html doc = Some s
             \<and> (isl (JSON_parse rt s)
                \<or> (\<exists>p. JSON_parse rt s = Inr p
                      \<and> (\<not> truthy rt (workingObject p)
                         \<or> isl (extractNoteFromJsonLd rt (workingObject p)))))))"
  have 1: "jsonLdBranch rt doc = None \<longleftrightarrow> fb"
    unfolding fb_def by (rule jsonLdBranch_None_iff)
  have 2: "parseKeepHtmlNote_doc rt doc = extractNoteFromHtml doc" if fb
    using that 1 by (simp add: parseKeepHtmlNote_doc_def)
  have 3: "\<exists>s p r. script_html doc = Some s \<and> s \<noteq> [] \<and> JSON_parse rt s = Inr p
               \<and> truthy rt (workingObject p)
               \<and> extractNoteFromJsonLd rt (workingObject p) = Inr r
               \<and> parseKeepHtmlNote_doc rt doc = r" if "\<not> fb"
  proof -
    from that 1 obtain r where r: "jsonLdBranch rt doc = Some r" by auto
    then have "parseKeepHtmlNote_doc rt doc = r" by (simp add: parseKeepHtmlNote_doc_def)
    with r show ?thesis unfolding jsonLdBranch_Some_iff by blast
  qed
  have 4: "jsonLdBranch rt doc = Some None \<and> parseKeepHtmlNote_doc rt doc = None"
    if "script_html doc = Some s" "s \<noteq> []" "JSON_parse rt s = Inr p"
      "truthy rt (workingObject p)" "rawContent rt (workingObject p) = Inr (JStr c)" "trim c = []"
    for s p c
    using that extractNoteFromJsonLd_blank [of rt "workingObject p" c]
    by (simp add: jsonLdBranch_def parseKeepHtmlNote_doc_def)
  have 5: "parseKeepHtmlNote rt html = Inr (parseKeepHtmlNote_doc rt doc)"
    if "cheerio_load rt html = Inr doc" for html
    using that by (simp add: parseKeepHtmlNote_def)
  from 1 2 3 have "(jsonLdBranch rt doc = None \<longleftrightarrow> fb)
       \<and> (fb \<longrightarrow> parseKeepHtmlNote_doc rt doc = extractNoteFromHtml doc)
       \<and> (\<not> fb \<longrightarrow>
            (\<exists>s p r. script_html doc = Some s \<and> s \<noteq> [] \<and> JSON_parse rt s = Inr p
               \<and> truthy rt (workingObject p)
               \<and> extractNoteFromJsonLd rt (workingObject p) = Inr r
               \<and> parseKeepHtmlNote_doc rt doc = r))" by blast
  then have A: "(let fallback =
      (script_html doc = None \<or> script_html doc = Some []
       \<or> (\<exists>s. script_html doc = Some s
             \<and> (isl (JSON_parse rt s)
                \<or> (\<exists>p. JSON_parse rt s = Inr p
                      \<and> (\<not> truthy rt (workingObject p)
                         \<or> isl (extractNoteFromJsonLd rt (workingObject p)))))))
    in (jsonLdBranch rt doc = None \<longleftrightarrow> fallback)
       \<and> (fallback \<longrightarrow> parseKeepHtmlNote_doc rt doc = extractNoteFromHtml doc)
       \<and> (\<not> fallback \<longrightarrow>
            (\<exists>s p r. script_html doc = Some s \<and> s \<noteq> [] \<and> JSON_parse rt s = Inr p
               \<and> truthy rt (workingObject p)
               \<and> extractNoteFromJsonLd rt (workingObject p) = Inr r
               \<and> parseKeepHtmlNote_doc rt doc = r)))"
    unfolding Let_def fb_def .
  from A 4 5 show ?thesis by blast
qed

text \<open>
  The claim as stated fails: the payload \<open>null\<close> parses as JSON, and the fallback is
  reached all the same and produces a note from the body text.
\<close>

theorem fallback_attempted_counterexample:
  "script_html (doc_with_payload (ascii ''null'') (ascii ''body'')) = Some (ascii ''null'')
   \<and> JSON_parse sample_rt (ascii ''null'') = Inr JNull
   \<and> jsonLdBranch sample_rt (doc_with_payload (ascii ''null'') (ascii ''body'')) = None
   \<and> parseKeepHtmlNote_doc sample_rt (doc_with_payload (ascii ''null'') (ascii ''body'')) =
       Some \<lparr>title = [], content = ascii ''body'', createdAt = None\<rparr>"
  by (simp add: sample_eval)

theorem fallback_attempted_iff_witness:
  "script_html (doc_with_payload (ascii ''[]'') (ascii ''body'')) = Some (ascii ''[]'')
   \<and> JSON_parse ld_rt (ascii ''[]'') = Inr (JArr [])
   \<and> \<not> truthy ld_rt (workingObject (JArr []))
   \<and> parseKeepHtmlNote_doc ld_rt (doc_with_payload (ascii ''[]'') (ascii ''body''))
       = extractNoteFromHtml (doc_with_payload (ascii ''[]'') (ascii ''body''))
   \<and> extractNoteFromHtml (doc_with_payload (ascii ''[]'') (ascii ''body''))
       = Some \<lparr>title = [], content = ascii ''body'', createdAt = None\<rparr>
   \<and> jsonLdBranch ld_rt (doc_with_payload (ascii ''[]'') (ascii ''body'')) = None
   \<and> script_html (doc_with_payload hello_payload (ascii ''body'')) = Some hello_payload
   \<and> jsonLdBranch ld_rt (doc_with_payload hello_payload (ascii ''body''))
       = Some (Some \<lparr>title = ascii ''T'', content = ascii ''Hello'', createdAt = None\<rparr>)
   \<and> parseKeepHtmlNote_doc ld_rt (doc_with_payload hello_payload (ascii ''body''))
       = Some \<lparr>title = ascii ''T'', content = ascii ''Hello'', createdAt = None\<rparr>
   \<and> script_html (doc_with_payload blank_text_payload (ascii ''body'')) = Some blank_text_payload
   \<and> blank_text_payload \<noteq> []
   \<and> JSON_parse ld_rt blank_text_payload = Inr (JObj [(ascii ''text'', JStr (ascii ''  ''))])
   \<and> truthy ld_rt (workingObject (JObj [(ascii ''text'', JStr (ascii ''  ''))]))
   \<and> rawContent ld_rt (workingObject (JObj [(ascii ''text'', JStr (ascii ''  ''))])) = Inr (JStr (ascii ''  ''))
   \<and> trim (ascii ''  '') = []
   \<and> jsonLdBranch ld_rt (doc_with_payload blank_text_payload (ascii ''body'')) = Some None
   \<and> parseKeepHtmlNote_doc ld_rt (doc_with_payload blank_text_payload (ascii ''body'')) = None"
proof -
  let ?d0 = "doc_with_payload (ascii ''[]'') (ascii ''body'')"
  let ?d1 = "doc_with_payload hello_payload (ascii ''body'')"
  let ?d2 = "doc_with_payload blank_text_payload (ascii ''body'')"
  have a1: "script_html ?d0 = Some (ascii ''[]'')" by (simp add: doc_with_payload_def)
  have a2: "JSON_parse ld_rt (ascii ''[]'') = Inr (JArr [])" by (simp add: sample_eval)
  have a3: "\<not> truthy ld_rt (workingObject (JArr []))" by (simp add: workingObject_def)
  have a4: "extractNoteFromHtml ?d0 = Some \<lparr>title = [], content = ascii ''body'', createdAt = None\<rparr>"
    by (simp add: sample_eval)
  from a1 a2 a3 have fb: "script_html ?d0 = None \<or> script_html ?d0 = Some []
       \<or> (\<exists>s. script_html ?d0 = Some s
             \<and> (isl (JSON_parse ld_rt s)
                \<or> (\<exists>p. JSON_parse ld_rt s = Inr p
                      \<and> (\<not> truthy ld_rt (workingObject p)
                         \<or> isl (extractNoteFromJsonLd ld_rt (workingObject p))))))"
    by blast
  from fb fallback_attempted_iff [of ?d0 ld_rt]
  have a5: "parseKeepHtmlNote_doc ld_rt ?d0 = extractNoteFromHtml ?d0"
    and a6: "jsonLdBranch ld_rt ?d0 = None"
    unfolding Let_def by blast+
  have b1: "script_html ?d1 = Some hello_payload" by (simp add: doc_with_payload_def)
  have b2: "jsonLdBranch ld_rt ?d1
       = Some (Some \<lparr>title = ascii ''T'', content = ascii ''Hello'', createdAt = None\<rparr>)"
    by (simp add: sample_eval)
  have b4: "JSON_parse ld_rt hello_payload
       = Inr (JObj [(ascii ''name'', JStr (ascii ''T'')), (ascii ''text'', JStr (ascii ''Hello''))])"
    by (simp add: sample_eval)
  have b5: "extractNoteFromJsonLd ld_rt
       (workingObject (JObj [(ascii ''name'', JStr (ascii ''T'')), (ascii ''text'', JStr (ascii ''Hello''))]))
       = Inr (Some \<lparr>title = ascii ''T'', content = ascii ''Hello'', createdAt = None\<rparr>)"
    by (simp add: sample_eval)
  from b2 have "jsonLdBranch ld_rt ?d1 \<noteq> None" by simp
  with fallback_attempted_iff [of ?d1 ld_rt]
  obtain s p r where "script_html ?d1 = Some s" "JSON_parse ld_rt s = Inr p"
    "extractNoteFromJsonLd ld_rt (workingObject p) = Inr r" "parseKeepHtmlNote_doc ld_rt ?d1 = r"
    unfolding Let_def by blast
  with b1 b4 b5 have b3: "parseKeepHtmlNote_doc ld_rt ?d1
       = Some \<lparr>title = ascii ''T'', content = ascii ''Hello'', createdAt = None\<rparr>"
    by simp
  have c1: "script_html ?d2 = Some blank_text_payload" by (simp add: doc_with_payload_def)
  have c2: "blank_text_payload \<noteq> []" by (simp add: blank_text_payload_def)
  have c3: "JSON_parse ld_rt blank_text_payload = Inr (JObj [(ascii ''text'', JStr (ascii ''  ''))])"
    by (simp add: sample_eval)
  have c4: "truthy ld_rt (workingObject (JObj [(ascii ''text'', JStr (ascii ''  ''))]))"
    by (simp add: workingObject_def)
  have c5: "rawContent ld_rt (workingObject (JObj [(ascii ''text'', JStr (ascii ''  ''))])) = Inr (JStr (ascii ''  ''))"
    by (simp add: sample_eval)
  have c6: "trim (ascii ''  '') = []" by (simp add: sample_eval)
  from c1 c2 c3 c4 c5 c6 fallback_attempted_iff [of ?d2 ld_rt]
  have c7: "jsonLdBranch ld_rt ?d2 = Some None" and c8: "parseKeepHtmlNote_doc ld_rt ?d2 = None"
    by blast+
  from a1 a2 a3 a4 a5 a6 b1 b2 b3 c1 c2 c3 c4 c5 c6 c7 c8 show ?thesis by (intro conjI)
qed

lemma recoverCreatedAt_Inr:
  "recoverCreatedAt rt d = Inr t \<Longrightarrow>
     \<exists>dc dm. get_prop d (ascii ''dateCreated'') = Inr dc
        \<and> get_prop d (ascii ''dateModified'') = Inr dm
        \<and> Inr t = (if truthy rt dc then Date_getTime rt dc
                   else if truthy rt dm then Date_getTime rt dm
                   else Inr None)"
  by (cases d) (auto simp: recoverCreatedAt_def bindE_Inr_iff split: if_splits)

text \<open>
  The timestamp of a note from the structured-data path, as the code computes it: the parsed
  \<open>dateCreated\<close> when that property is truthy (unset when it does not parse);
  \<open>dateModified\<close> is read only when \<open>dateCreated\<close> is absent or falsy.
\<close>

lemma createdAt_recovered:
  "extractNoteFromJsonLd rt data = Inr (Some n) \<Longrightarrow>
     \<exists>dc dm. get_prop data (ascii ''dateCreated'') = Inr dc
        \<and> get_prop data (ascii ''dateModified'') = Inr dm
        \<and> Inr (createdAt n) = (if truthy rt dc then Date_getTime rt dc
                                else if truthy rt dm then Date_getTime rt dm
                                else Inr None)"
proof -
  assume "extractNoteFromJsonLd rt data = Inr (Some n)"
  then have "recoverCreatedAt rt data = Inr (createdAt n)"
    using extractNoteFromJsonLd_Some [of rt data n] by blast
  then show ?thesis by (rule recoverCreatedAt_Inr)
qed

text \<open>
  With both dates valid the note carries the parsed \<open>dateCreated\<close>; with only a valid
  \<open>dateModified\<close> it carries that; with neither it carries none.
\<close>

lemma createdAt_recovered_examples:
  "extractNoteFromJsonLd sample_rt
     (JObj [(ascii ''text'', JStr (ascii ''x'')),
            (ascii ''dateCreated'', JStr (ascii ''2020-01-01T00:00:00Z'')),
            (ascii ''dateModified'', JStr (ascii ''2021-01-01T00:00:00Z''))])
     = Inr (Some \<lparr>title = [], content = ascii ''x'', createdAt = Some 1577836800000\<rparr>)"
  "extractNoteFromJsonLd sample_rt
     (JObj [(ascii ''text'', JStr (ascii ''x'')),
            (ascii ''dateModified'', JStr (ascii ''2021-01-01T00:00:00Z''))])
     = Inr (Some \<lparr>title = [], content = ascii ''x'', createdAt = Some 1609459200000\<rparr>)"
  "extractNoteFromJsonLd sample_rt
     (JObj [(ascii ''text'', JStr (ascii ''x'')),
            (ascii ''dateModified'', JStr (ascii ''garbage''))])
     = Inr (Some \<lparr>title = [], content = ascii ''x'', createdAt = None\<rparr>)"
  by (simp_all add: sample_eval)

text \<open>
  Claim C2. The timestamp is to be the parsed \<open>dateCreated\<close>, else the parsed
  \<open>dateModified\<close>, else unset. The code departs from this when \<open>dateCreated\<close> is
  present and does not parse: \<open>dateModified\<close> sits in the \<open>else\<close> branch and is not
  tried, so the timestamp stays unset although \<open>dateModified\<close> parses.
\<close>

theorem unparseable_dateCreated_hides_dateModified:
  "extractNoteFromJsonLd sample_rt
     (JObj [(ascii ''text'', JStr (ascii ''x'')),
            (ascii ''dateCreated'', JStr (ascii ''garbage'')),
            (ascii ''dateModified'', JStr (ascii ''2021-01-01T00:00:00Z''))])
     = Inr (Some \<lparr>title = [], content = ascii ''x'', createdAt = None\<rparr>)
   \<and> Date_getTime sample_rt (JStr (ascii ''garbage'')) = Inr None
   \<and> Date_getTime sample_rt (JStr (ascii ''2021-01-01T00:00:00Z'')) = Inr (Some 1609459200000)"
  by (simp add: sample_eval)

lemma checklistItems_Inr_iff:
  "checklistItems rt items acc = Inr ls \<longleftrightarrow>
     (\<exists>ls'. ls = acc @ ls' \<and> list_all2 (\<lambda>it l. checklistLine rt it = Inr l) items ls')"
proof (induction items arbitrary: acc)
  case Nil
  show ?case by auto
next
  case (Cons it items)
  show ?case
    by (auto simp: bindE_Inr_iff Cons.IH list_all2_Cons1)
qed

lemma rawContent_checklist:
  assumes "get_prop data (ascii ''itemListElement'') = Inr (JArr items)"
  shows "rawContent rt data = Inr (JStr s) \<longleftrightarrow>
     (\<exists>ls. s = join_nl ls \<and> list_all2 (\<lambda>it l. checklistLine rt it = Inr l) items ls)"
  using assms by (auto simp: rawContent_def bindE_Inr_iff checklistItems_Inr_iff)

text \<open>The content of a note returned for a checklist.\<close>

lemma checklist_note_lines:
  assumes "get_prop data (ascii ''itemListElement'') = Inr (JArr items)"
  shows "(extractNoteFromJsonLd rt data = Inr (Some n) \<longrightarrow>
           (\<exists>lines. length lines = length items
              \<and> content n = trim (join_nl lines)
              \<and> (\<forall>i<length items. \<exists>c v t.
                    get_prop (items ! i) (ascii ''checked'') = Inr c
                    \<and> prop_or_prop_or_empty rt (items ! i) (ascii ''text'') (ascii ''name'') = Inr v
                    \<and> ToString rt v = Inr t
                    \<and> lines ! i = (if c = JBool True then ballot_box_checked else ballot_box) # 0x20 # t)))
         \<and> (items = [] \<longrightarrow> extractNoteFromJsonLd rt data = Inr None)"
proof (intro conjI impI)
  assume "extractNoteFromJsonLd rt data = Inr (Some n)"
  then obtain s where r: "rawContent rt data = Inr (JStr s)" and c: "content n = trim s"
    by (auto dest!: extractNoteFromJsonLd_Some)
  from r obtain ls where s: "s = join_nl ls"
    and l: "list_all2 (\<lambda>it l. checklistLine rt it = Inr l) items ls"
    using rawContent_checklist [OF assms, of rt s] by blast
  from l have len: "length ls = length items"
    by (simp add: list_all2_lengthD)
  have "\<exists>c v t. get_prop (items ! i) (ascii ''checked'') = Inr c
          \<and> prop_or_prop_or_empty rt (items ! i) (ascii ''text'') (ascii ''name'') = Inr v
          \<and> ToString rt v = Inr t
          \<and> ls ! i = (if c = JBool True then ballot_box_checked else ballot_box) # 0x20 # t"
    if "i < length items" for i
  proof -
    from l that have "checklistLine rt (items ! i) = Inr (ls ! i)"
      by (rule list_all2_nthD)
    then show ?thesis
      unfolding checklistLine_Inr_iff by blast
  qed
  with len c s show "\<exists>lines. length lines = length items
              \<and> content n = trim (join_nl lines)
              \<and> (\<forall>i<length items. \<exists>c v t.
                    get_prop (items ! i) (ascii ''checked'') = Inr c
                    \<and> prop_or_prop_or_empty rt (items ! i) (ascii ''text'') (ascii ''name'') = Inr v
                    \<and> ToString rt v = Inr t
                    \<and> lines ! i = (if c = JBool True then ballot_box_checked else ballot_box) # 0x20 # t)"
    by blast
next
  assume e: "items = []"
  from assms have t: "truthy rt data" by (cases data) simp_all
  have "rawContent rt data = Inr (JStr [])"
    using assms e by (simp add: rawContent_def)
  from extractNoteFromJsonLd_blank [OF t this] show "extractNoteFromJsonLd rt data = Inr None"
    by (simp add: trim_def)
qed

lemma box_not_whitespace: "\<not> isWhiteSpace ballot_box" "\<not> isWhiteSpace ballot_box_checked"
  by (simp_all add: isWhiteSpace_def ballot_box_def ballot_box_checked_def)

lemma trim_nonempty: "s \<noteq> [] \<Longrightarrow> \<not> isWhiteSpace (hd s) \<Longrightarrow> trim s \<noteq> []"
  by (cases s) (auto simp: trim_Nil_iff blank_def)

lemma checklistLine_hd:
  "checklistLine rt item = Inr l \<Longrightarrow> l \<noteq> [] \<and> \<not> isWhiteSpace (hd l)"
  by (auto simp: checklistLine_Inr_iff box_not_whitespace split: if_splits)

lemma join_nl_hd: "l \<noteq> [] \<Longrightarrow> join_nl (l # ls) \<noteq> [] \<and> hd (join_nl (l # ls)) = hd l"
  by (cases ls) auto

lemma checklist_emitted:
  assumes ile: "get_prop data (ascii ''itemListElement'') = Inr (JArr items)"
    and ne: "items \<noteq> []"
    and len: "length lines = length items"
    and ls: "\<forall>i<length items. checklistLine rt (items ! i) = Inr (lines ! i)"
    and ti: "prop_or_prop_or_empty rt data (ascii ''name'') (ascii ''headline'') = Inr (JStr ts)"
    and cr: "recoverCreatedAt rt data = Inr c"
  shows "extractNoteFromJsonLd rt data =
     Inr (Some \<lparr>title = trim ts, content = trim (join_nl lines), createdAt = c\<rparr>)"
proof -
  from len ls have l2: "list_all2 (\<lambda>it l. checklistLine rt it = Inr l) items lines"
    by (simp add: list_all2_conv_all_nth)
  then have raw: "rawContent rt data = Inr (JStr (join_nl lines))"
    using rawContent_checklist [OF ile, of rt "join_nl lines"] by blast
  from ne len obtain l rest where lines: "lines = l # rest" by (cases lines) auto
  from ne ls have "checklistLine rt (items ! 0) = Inr (lines ! 0)" by simp
  with lines have "l \<noteq> [] \<and> \<not> isWhiteSpace (hd l)"
    using checklistLine_hd [of rt "items ! 0" l] by simp
  with lines have j: "join_nl lines \<noteq> []" and "\<not> isWhiteSpace (hd (join_nl lines))"
    using join_nl_hd [of l rest] by simp_all
  then have t: "trim (join_nl lines) \<noteq> []" by (simp add: trim_nonempty)
  from ti raw j t cr show ?thesis
    by (simp add: extractNoteFromJsonLd_def)
qed

lemma checklist_throws:
  assumes ile: "get_prop data (ascii ''itemListElement'') = Inr (JArr items)"
    and i: "i < length items" and th: "isl (checklistLine rt (items ! i))"
  shows "isl (extractNoteFromJsonLd rt data)"
proof (cases "extractNoteFromJsonLd rt data")
  case (Inl e)
  then show ?thesis by simp
next
  case (Inr r)
  then obtain v where "rawContent rt data = Inr v"
    by (auto simp: extractNoteFromJsonLd_def bindE_Inr_iff)
  with ile obtain ls where "checklistItems rt items [] = Inr ls"
    by (auto simp: rawContent_def bindE_Inr_iff)
  then have "list_all2 (\<lambda>it l. checklistLine rt it = Inr l) items ls"
    by (simp add: checklistItems_Inr_iff)
  then have "checklistLine rt (items ! i) = Inr (ls ! i)"
    using i by (rule list_all2_nthD)
  with th show ?thesis by simp
qed

text \<open>
  Claim C4, as the code has it, for the structured extraction. Let \<open>itemListElement\<close> be
  an array of \<open>k\<close> items. When \<open>k\<close> is not zero, every item renders, the title is a
  string and reading the dates does not throw, \<open>extractNoteFromJsonLd\<close> returns a note
  whose content is the trimmed join by newlines of the \<open>k\<close> rendered items in item order.
  Whenever it returns a note, the content has that form, the rendered item \<open>i\<close> being the
  box of item \<open>i\<close> (checked exactly when \<open>checked\<close> is \<open>true\<close>), a space, and the
  string form of the item's \<open>text\<close>, else \<open>name\<close>, else the empty string (which may
  itself contain newlines). An empty array gives no note, and an item that does not render
  makes the extraction throw.
\<close>

theorem checklist_content:
  assumes "get_prop data (ascii ''itemListElement'') = Inr (JArr items)"
  shows "(extractNoteFromJsonLd rt data = Inr (Some n) \<longrightarrow>
           (\<exists>lines. length lines = length items
              \<and> content n = trim (join_nl lines)
              \<and> (\<forall>i<length items. \<exists>c v t.
                    get_prop (items ! i) (ascii ''checked'') = Inr c
                    \<and> prop_or_prop_or_empty rt (items ! i) (ascii ''text'') (ascii ''name'') = Inr v
                    \<and> ToString rt v = Inr t
                    \<and> lines ! i = (if c = JBool True then ballot_box_checked else ballot_box) # 0x20 # t)))
         \<and> (items = [] \<longrightarrow> extractNoteFromJsonLd rt data = Inr None)
         \<and> (\<forall>lines ts c. items \<noteq> [] \<and> length lines = length items
               \<and> (\<forall>i<length items. checklistLine rt (items ! i) = Inr (lines ! i))
               \<and> prop_or_prop_or_empty rt data (ascii ''name'') (ascii ''headline'') = Inr (JStr ts)
               \<and> recoverCreatedAt rt data = Inr c
             \<longrightarrow> extractNoteFromJsonLd rt data =
                   Inr (Some \<lparr>title = trim ts, content = trim (join_nl lines), createdAt = c\<rparr>))
         \<and> ((\<exists>i<length items. isl (checklistLine rt (items ! i)))
             \<longrightarrow> isl (extractNoteFromJsonLd rt data))"
proof -
  note a = checklist_note_lines [OF assms, of rt n]
  have 3: "\<forall>lines ts c. items \<noteq> [] \<and> length lines = length items
               \<and> (\<forall>i<length items. checklistLine rt (items ! i) = Inr (lines ! i))
               \<and> prop_or_prop_or_empty rt data (ascii ''name'') (ascii ''headline'') = Inr (JStr ts)
               \<and> recoverCreatedAt rt data = Inr c
             \<longrightarrow> extractNoteFromJsonLd rt data =
                   Inr (Some \<lparr>title = trim ts, content = trim (join_nl lines), createdAt = c\<rparr>)"
    using checklist_emitted [OF assms] by blast
  have 4: "(\<exists>i<length items. isl (checklistLine rt (items ! i)))
             \<longrightarrow> isl (extractNoteFromJsonLd rt data)"
    using checklist_throws [OF assms] by blast
  from a have 1: "extractNoteFromJsonLd rt data = Inr (Some n) \<longrightarrow>
           (\<exists>lines. length lines = length items
              \<and> content n = trim (join_nl lines)
              \<and> (\<forall>i<length items. \<exists>c v t.
                    get_prop (items ! i) (ascii ''checked'') = Inr c
                    \<and> prop_or_prop_or_empty rt (items ! i) (ascii ''text'') (ascii ''name'') = Inr v
                    \<and> ToString rt v = Inr t
                    \<and> lines ! i = (if c = JBool True then ballot_box_checked else ballot_box) # 0x20 # t))"
    by (rule conjunct1)
  from a have 2: "items = [] \<longrightarrow> extractNoteFromJsonLd rt data = Inr None"
    by (rule conjunct2)
  from 1 2 3 4 show ?thesis by (intro conjI)
qed

text \<open>
  The claim as stated fails: the content is trimmed after the join, so a last line that ends
  in whitespace is not emitted as rendered.
\<close>

theorem checklist_content_counterexample:
  "get_prop (JObj [(ascii ''itemListElement'', JArr [JObj [(ascii ''text'', JStr (ascii ''a ''))]])] :: nat jsval)
       (ascii ''itemListElement'')
     = Inr (JArr [JObj [(ascii ''text'', JStr (ascii ''a ''))]])
   \<and> checklistLine sample_rt (JObj [(ascii ''text'', JStr (ascii ''a ''))])
     = Inr (ballot_box # 0x20 # ascii ''a '')
   \<and> extractNoteFromJsonLd sample_rt
       (JObj [(ascii ''itemListElement'', JArr [JObj [(ascii ''text'', JStr (ascii ''a ''))]])])
     = Inr (Some \<lparr>title = [], content = ballot_box # 0x20 # ascii ''a'', createdAt = None\<rparr>)
   \<and> ballot_box # 0x20 # ascii ''a'' \<noteq> join_nl [ballot_box # 0x20 # ascii ''a '']"
  by (simp add: sample_eval)

theorem checklist_content_witness:
  "get_prop (JObj [(ascii ''name'', JStr (ascii ''T'')),
                   (ascii ''itemListElement'',
                    JArr [JObj [(ascii ''text'', JStr (ascii ''milk'')), (ascii ''checked'', JBool True)],
                          JObj [(ascii ''name'', JStr (ascii ''eggs ''))]])] :: nat jsval)
       (ascii ''itemListElement'')
     = Inr (JArr [JObj [(ascii ''text'', JStr (ascii ''milk'')), (ascii ''checked'', JBool True)],
                  JObj [(ascii ''name'', JStr (ascii ''eggs ''))]])
   \<and> checklistLine sample_rt (JObj [(ascii ''text'', JStr (ascii ''milk'')), (ascii ''checked'', JBool True)])
       = Inr (ballot_box_checked # 0x20 # ascii ''milk'')
   \<and> checklistLine sample_rt (JObj [(ascii ''name'', JStr (ascii ''eggs ''))])
       = Inr (ballot_box # 0x20 # ascii ''eggs '')
   \<and> extractNoteFromJsonLd sample_rt
       (JObj [(ascii ''name'', JStr (ascii ''T'')),
              (ascii ''itemListElement'',
               JArr [JObj [(ascii ''text'', JStr (ascii ''milk'')), (ascii ''checked'', JBool True)],
                     JObj [(ascii ''name'', JStr (ascii ''eggs ''))]])])
     = Inr (Some \<lparr>title = ascii ''T'',
                    content = ballot_box_checked # 0x20 # ascii ''milk'' @ 0x0A # ballot_box # 0x20 # ascii ''eggs'',
                    createdAt = None\<rparr>)
   \<and> get_prop (JObj [(ascii ''itemListElement'', JArr [JNull])] :: nat jsval) (ascii ''itemListElement'')
     = Inr (JArr [JNull])
   \<and> isl (checklistLine sample_rt JNull)
   \<and> isl (extractNoteFromJsonLd sample_rt (JObj [(ascii ''itemListElement'', JArr [JNull])]))
   \<and> get_prop (JObj [(ascii ''itemListElement'', JArr [])] :: nat jsval) (ascii ''itemListElement'')
     = Inr (JArr [])
   \<and> extractNoteFromJsonLd sample_rt (JObj [(ascii ''itemListElement'', JArr [])]) = Inr None"
proof -
  let ?i0 = "JObj [(ascii ''text'', JStr (ascii ''milk'')), (ascii ''checked'', JBool True)] :: nat jsval"
  let ?i1 = "JObj [(ascii ''name'', JStr (ascii ''eggs ''))] :: nat jsval"
  let ?d = "JObj [(ascii ''name'', JStr (ascii ''T'')), (ascii ''itemListElement'', JArr [?i0, ?i1])]"
  let ?l0 = "ballot_box_checked # 0x20 # ascii ''milk''"
  let ?l1 = "ballot_box # 0x20 # ascii ''eggs ''"
  let ?n = "\<lparr>title = ascii ''T'',
             content = ballot_box_checked # 0x20 # ascii ''milk'' @ 0x0A # ballot_box # 0x20 # ascii ''eggs'',
             createdAt = None\<rparr>"
  have h: "get_prop ?d (ascii ''itemListElement'') = Inr (JArr [?i0, ?i1])"
    by (simp add: own_prop_def ascii_def)
  have l0: "checklistLine sample_rt ?i0 = Inr ?l0"
    by (simp add: checklistLine_def prop_or_prop_or_empty_def own_prop_def ascii_def)
  have l1: "checklistLine sample_rt ?i1 = Inr ?l1"
    by (simp add: checklistLine_def prop_or_prop_or_empty_def own_prop_def ascii_def)
  have ls: "\<forall>i<length [?i0, ?i1]. checklistLine sample_rt ([?i0, ?i1] ! i) = Inr ([?l0, ?l1] ! i)"
    using l0 l1 by (simp add: less_Suc_eq)
  have ti: "prop_or_prop_or_empty sample_rt ?d (ascii ''name'') (ascii ''headline'') = Inr (JStr (ascii ''T''))"
    by (simp add: prop_or_prop_or_empty_def own_prop_def ascii_def)
  have cr: "recoverCreatedAt sample_rt ?d = Inr None"
    by (simp add: recoverCreatedAt_def own_prop_def ascii_def)
  have tr: "\<lparr>title = trim (ascii ''T''), content = trim (join_nl [?l0, ?l1]), createdAt = None\<rparr> = ?n"
    by (simp add: sample_eval)
  note T = checklist_content [OF h, of sample_rt ?n, THEN conjunct2, THEN conjunct2]
  have pre: "[?i0, ?i1] \<noteq> [] \<and> length [?l0, ?l1] = length [?i0, ?i1]
      \<and> (\<forall>i<length [?i0, ?i1]. checklistLine sample_rt ([?i0, ?i1] ! i) = Inr ([?l0, ?l1] ! i))
      \<and> prop_or_prop_or_empty sample_rt ?d (ascii ''name'') (ascii ''headline'') = Inr (JStr (ascii ''T''))
      \<and> recoverCreatedAt sample_rt ?d = Inr None"
    by (intro conjI) (simp, simp, rule ls, rule ti, rule cr)
  from T [THEN conjunct1, rule_format, OF pre]
  have "extractNoteFromJsonLd sample_rt ?d =
      Inr (Some \<lparr>title = trim (ascii ''T''), content = trim (join_nl [?l0, ?l1]), createdAt = None\<rparr>)" .
  then have e: "extractNoteFromJsonLd sample_rt ?d = Inr (Some ?n)"
    by (simp only: tr)
  have h2: "get_prop (JObj [(ascii ''itemListElement'', JArr [JNull])] :: nat jsval) (ascii ''itemListElement'')
     = Inr (JArr [JNull])"
    by (simp add: own_prop_def)
  have t2: "isl (checklistLine sample_rt JNull)"
    by (simp add: checklistLine_def prop_or_prop_or_empty_def)
  have t2': "\<exists>i<length [JNull :: nat jsval]. isl (checklistLine sample_rt ([JNull] ! i))"
    using t2 by simp
  from checklist_content [OF h2, of sample_rt ?n, THEN conjunct2, THEN conjunct2,
      THEN conjunct2, rule_format, OF t2']
  have e2: "isl (extractNoteFromJsonLd sample_rt (JObj [(ascii ''itemListElement'', JArr [JNull])]))" .
  have h3: "get_prop (JObj [(ascii ''itemListElement'', JArr [])] :: nat jsval) (ascii ''itemListElement'')
     = Inr (JArr [])"
    by (simp add: own_prop_def)
  from checklist_content [OF h3, of sample_rt ?n, THEN conjunct2, THEN conjunct1]
  have e3: "extractNoteFromJsonLd sample_rt (JObj [(ascii ''itemListElement'', JArr [])]) = Inr None"
    by simp
  from h l0 l1 e h2 t2 e2 h3 e3 show ?thesis by (intro conjI)
qed

end
